theory Spec2Isabelle
  imports Main "HOL-Library.Multiset"
begin

section \<open>JavaScript values\<close>

text \<open>
  The route handlers of \<^verbatim>\<open>backend/src/routes/tasks.js\<close> work on values that come
  out of a JSON request body, a query string or a database row. They are modelled by one
  datatype of JavaScript values. A number is an integer here (the handlers only test
  numbers for being zero and pass them on), and a string is a list of 8-bit characters,
  each standing for the code unit of the same value.
\<close>

datatype jsval =
    Undefined
  | Null
  | Bool bool
  | Num int
  | Str string
  | Arr "jsval list"
  | Obj "(string \<times> jsval) list"

text \<open>JavaScript's ToBoolean: what \<^verbatim>\<open>if (x)\<close>, \<^verbatim>\<open>!x\<close> and \<^verbatim>\<open>x || y\<close> test.\<close>

fun truthy :: "jsval \<Rightarrow> bool" where
  "truthy Undefined = False"
| "truthy Null = False"
| "truthy (Bool b) = b"
| "truthy (Num n) = (n \<noteq> 0)"
| "truthy (Str s) = (s \<noteq> [])"
| "truthy (Arr vs) = True"
| "truthy (Obj ps) = True"

text \<open>The operator \<^verbatim>\<open>a || b\<close>.\<close>

definition js_or :: "jsval \<Rightarrow> jsval \<Rightarrow> jsval" where
  "js_or a b = (if truthy a then a else b)"

text \<open>Property access \<^verbatim>\<open>o.k\<close> on the own properties of an object: a missing
  property reads as \<^verbatim>\<open>undefined\<close>.\<close>

definition get_prop :: "(string \<times> jsval) list \<Rightarrow> string \<Rightarrow> jsval" where
  "get_prop ps k = (case map_of ps k of None \<Rightarrow> Undefined | Some v \<Rightarrow> v)"

text \<open>Assignment \<^verbatim>\<open>o.k = v\<close> (and the object spread \<^verbatim>\<open>{...o, k: v}\<close>): an existing
  property keeps its place, a new one is added at the end.\<close>

fun set_prop :: "(string \<times> jsval) list \<Rightarrow> string \<Rightarrow> jsval \<Rightarrow> (string \<times> jsval) list" where
  "set_prop [] k v = [(k, v)]"
| "set_prop ((k', v') # ps) k v =
     (if k' = k then (k, v) # ps else (k', v') # set_prop ps k v)"

section \<open>JSON.stringify and JSON.parse\<close>

subsection \<open>Printing\<close>

definition digit_char :: "nat \<Rightarrow> char" where
  "digit_char d = char_of (48 + d)"

fun show_nat :: "nat \<Rightarrow> string" where
  "show_nat n = (if n < 10 then [digit_char n] else show_nat (n div 10) @ [digit_char (n mod 10)])"

declare show_nat.simps [simp del]

definition show_int :: "int \<Rightarrow> string" where
  "show_int i = (if i < 0 then CHR ''-'' # show_nat (nat (- i)) else show_nat (nat i))"

definition hex_char :: "nat \<Rightarrow> char" where
  "hex_char d = (if d < 10 then char_of (48 + d) else char_of (87 + d))"

text \<open>JSON.stringify's QuoteJSONString, one code unit at a time: the quotation mark
  and the backslash are escaped, the control characters below 0x20 are written with
  their short escape or as \<^verbatim>\<open>\u00XX\<close> in lower-case hexadecimal.\<close>

definition quote_char :: "char \<Rightarrow> string" where
  "quote_char c =
     (if c = CHR 0x22 then [CHR 0x5C, CHR 0x22]
      else if c = CHR 0x5C then [CHR 0x5C, CHR 0x5C]
      else if c = CHR 0x08 then [CHR 0x5C, CHR ''b'']
      else if c = CHR 0x0C then [CHR 0x5C, CHR ''f'']
      else if c = CHR 0x0A then [CHR 0x5C, CHR ''n'']
      else if c = CHR 0x0D then [CHR 0x5C, CHR ''r'']
      else if c = CHR 0x09 then [CHR 0x5C, CHR ''t'']
      else if (of_char c :: nat) < 32
        then [CHR 0x5C, CHR ''u'', CHR ''0'', CHR ''0'',
              hex_char (of_char c div 16), hex_char (of_char c mod 16)]
      else [c])"

definition quote :: "string \<Rightarrow> string" where
  "quote s = CHR 0x22 # concat (map quote_char s) @ [CHR 0x22]"

fun join_comma :: "string list \<Rightarrow> string" where
  "join_comma [] = []"
| "join_comma [x] = x"
| "join_comma (x # y # ys) = x @ CHR '','' # join_comma (y # ys)"

text \<open>The text of a value. Inside an array \<^verbatim>\<open>undefined\<close> is written \<^verbatim>\<open>null\<close>; a
  property of an object whose value is \<^verbatim>\<open>undefined\<close> is left out.\<close>

fun JSON_text :: "jsval \<Rightarrow> string" where
  "JSON_text Undefined = ''null''"
| "JSON_text Null = ''null''"
| "JSON_text (Bool b) = (if b then ''true'' else ''false'')"
| "JSON_text (Num n) = show_int n"
| "JSON_text (Str s) = quote s"
| "JSON_text (Arr vs) = CHR ''['' # join_comma (map JSON_text vs) @ '']''"
| "JSON_text (Obj ps) =
     CHR ''{'' # join_comma (map (\<lambda>p. quote (fst p) @ CHR '':'' # JSON_text (snd p))
                               (filter (\<lambda>p. snd p \<noteq> Undefined) ps)) @ ''}''"

text \<open>\<^verbatim>\<open>JSON.stringify(v)\<close>: a string, or \<^verbatim>\<open>undefined\<close> for \<^verbatim>\<open>undefined\<close>.\<close>

definition JSON_stringify :: "jsval \<Rightarrow> jsval" where
  "JSON_stringify v = (if v = Undefined then Undefined else Str (JSON_text v))"

subsection \<open>Parsing\<close>

datatype error = SyntaxError | DatabaseError

definition is_ws :: "char \<Rightarrow> bool" where
  "is_ws c = (c = CHR 0x20 \<or> c = CHR 0x09 \<or> c = CHR 0x0A \<or> c = CHR 0x0D)"

fun skip_ws :: "string \<Rightarrow> string" where
  "skip_ws [] = []"
| "skip_ws (c # cs) = (if is_ws c then skip_ws cs else c # cs)"

definition is_digit :: "char \<Rightarrow> bool" where
  "is_digit c = (48 \<le> (of_char c :: nat) \<and> (of_char c :: nat) \<le> 57)"

definition digit_val :: "char \<Rightarrow> nat" where
  "digit_val c = of_char c - 48"

definition hex_val :: "char \<Rightarrow> nat option" where
  "hex_val c =
     (let n = (of_char c :: nat) in
      if 48 \<le> n \<and> n \<le> 57 then Some (n - 48)
      else if 97 \<le> n \<and> n \<le> 102 then Some (n - 87)
      else if 65 \<le> n \<and> n \<le> 70 then Some (n - 55)
      else None)"

text \<open>The character a two-character escape stands for.\<close>

definition unescape :: "char \<Rightarrow> char option" where
  "unescape e =
     (if e = CHR 0x22 then Some (CHR 0x22)
      else if e = CHR 0x5C then Some (CHR 0x5C)
      else if e = CHR ''/'' then Some (CHR ''/'')
      else if e = CHR ''b'' then Some (CHR 0x08)
      else if e = CHR ''f'' then Some (CHR 0x0C)
      else if e = CHR ''n'' then Some (CHR 0x0A)
      else if e = CHR ''r'' then Some (CHR 0x0D)
      else if e = CHR ''t'' then Some (CHR 0x09)
      else None)"

definition cons_chars :: "char \<Rightarrow> (string \<times> string) option \<Rightarrow> (string \<times> string) option" where
  "cons_chars c r = (case r of None \<Rightarrow> None | Some (s, rest) \<Rightarrow> Some (c # s, rest))"

text \<open>The characters of a string literal after its opening quotation mark, up to the
  closing one, and the input that follows. A raw control character ends the parse with
  an error. A \<^verbatim>\<open>\uXXXX\<close> escape above 0xFF denotes a code unit that is outside the
  8-bit strings of this model; it is refused.\<close>

fun parse_chars :: "string \<Rightarrow> (string \<times> string) option" where
  "parse_chars [] = None"
| "parse_chars (c # cs) =
     (if c = CHR 0x22 then Some ([], cs)
      else if c = CHR 0x5C then
        (case cs of
           [] \<Rightarrow> None
         | e # cs' \<Rightarrow>
             if e = CHR ''u'' then
               (case cs' of
                  h1 # h2 # h3 # h4 # rest \<Rightarrow>
                    (case (hex_val h1, hex_val h2, hex_val h3, hex_val h4) of
                       (Some a, Some b, Some c', Some d) \<Rightarrow>
                         if a = 0 \<and> b = 0 then cons_chars (char_of (16 * c' + d)) (parse_chars rest)
                         else None
                     | _ \<Rightarrow> None)
                | _ \<Rightarrow> None)
             else
               (case unescape e of
                  None \<Rightarrow> None
                | Some ch \<Rightarrow> cons_chars ch (parse_chars cs')))
      else if (of_char c :: nat) < 32 then None
      else cons_chars c (parse_chars cs))"

definition digits_val :: "string \<Rightarrow> nat" where
  "digits_val ds = foldl (\<lambda>a c. 10 * a + digit_val c) 0 ds"

text \<open>An unsigned integer literal: \<^verbatim>\<open>0\<close>, or a non-zero digit followed by digits.
  A fraction or an exponent would give a number that is not an integer, which the
  model does not have: such a literal is refused.\<close>

definition parse_digits :: "string \<Rightarrow> (nat \<times> string) option" where
  "parse_digits s =
     (let ds = takeWhile is_digit s; rest = dropWhile is_digit s in
      if ds = [] then None
      else if hd ds = CHR ''0'' \<and> length ds > 1 then None
      else if rest \<noteq> [] \<and> (hd rest = CHR ''.'' \<or> hd rest = CHR ''e'' \<or> hd rest = CHR ''E'') then None
      else Some (digits_val ds, rest))"

definition parse_number :: "string \<Rightarrow> (jsval \<times> string) option" where
  "parse_number s =
     (case s of
        [] \<Rightarrow> None
      | c # cs \<Rightarrow>
          if c = CHR ''-'' then
            (case parse_digits cs of None \<Rightarrow> None | Some (n, rest) \<Rightarrow> Some (Num (- int n), rest))
          else
            (case parse_digits s of None \<Rightarrow> None | Some (n, rest) \<Rightarrow> Some (Num (int n), rest)))"

text \<open>The recursive descent over values, the elements of an array after its first
  element has been found to exist, and the members of an object likewise. The first
  argument bounds the depth of the calls; \<open>JSON_parse_text\<close> below starts it high
  enough for the whole input.\<close>

fun parse_value :: "nat \<Rightarrow> string \<Rightarrow> (jsval \<times> string) option"
  and parse_elems :: "nat \<Rightarrow> string \<Rightarrow> (jsval list \<times> string) option"
  and parse_members :: "nat \<Rightarrow> string \<Rightarrow> ((string \<times> jsval) list \<times> string) option"
where
  "parse_value 0 s = None"
| "parse_value (Suc n) s =
     (case s of
        [] \<Rightarrow> None
      | c # cs \<Rightarrow>
          if c = CHR ''['' then
            (case skip_ws cs of
               [] \<Rightarrow> None
             | d # ds \<Rightarrow>
                 if d = CHR '']'' then Some (Arr [], ds)
                 else (case parse_elems n (d # ds) of
                         None \<Rightarrow> None
                       | Some (vs, rest) \<Rightarrow> Some (Arr vs, rest)))
          else if c = CHR ''{'' then
            (case skip_ws cs of
               [] \<Rightarrow> None
             | d # ds \<Rightarrow>
                 if d = CHR ''}'' then Some (Obj [], ds)
                 else (case parse_members n (d # ds) of
                         None \<Rightarrow> None
                       | Some (ms, rest) \<Rightarrow> Some (Obj (foldl (\<lambda>ps m. set_prop ps (fst m) (snd m)) [] ms), rest)))
          else if c = CHR 0x22 then
            (case parse_chars cs of None \<Rightarrow> None | Some (str, rest) \<Rightarrow> Some (Str str, rest))
          else if take 4 s = ''true'' then Some (Bool True, drop 4 s)
          else if take 5 s = ''false'' then Some (Bool False, drop 5 s)
          else if take 4 s = ''null'' then Some (Null, drop 4 s)
          else parse_number s)"
| "parse_elems 0 s = None"
| "parse_elems (Suc n) s =
     (case parse_value n s of
        None \<Rightarrow> None
      | Some (v, rest) \<Rightarrow>
          (case skip_ws rest of
             [] \<Rightarrow> None
           | c # cs \<Rightarrow>
               if c = CHR '']'' then Some ([v], cs)
               else if c = CHR '','' then
                 (case parse_elems n (skip_ws cs) of
                    None \<Rightarrow> None
                  | Some (vs, rest') \<Rightarrow> Some (v # vs, rest'))
               else None))"
| "parse_members 0 s = None"
| "parse_members (Suc n) s =
     (case s of
        [] \<Rightarrow> None
      | q # cs \<Rightarrow>
          if q \<noteq> CHR 0x22 then None
          else
            (case parse_chars cs of
               None \<Rightarrow> None
             | Some (k, rest) \<Rightarrow>
                 (case skip_ws rest of
                    [] \<Rightarrow> None
                  | col # rest1 \<Rightarrow>
                      if col \<noteq> CHR '':'' then None
                      else
                        (case parse_value n (skip_ws rest1) of
                           None \<Rightarrow> None
                         | Some (v, rest2) \<Rightarrow>
                             (case skip_ws rest2 of
                                [] \<Rightarrow> None
                              | c # rest3 \<Rightarrow>
                                  if c = CHR ''}'' then Some ([(k, v)], rest3)
                                  else if c = CHR '','' then
                                    (case parse_members n (skip_ws rest3) of
                                       None \<Rightarrow> None
                                     | Some (ms, rest4) \<Rightarrow> Some ((k, v) # ms, rest4))
                                  else None)))))"

text \<open>\<^verbatim>\<open>JSON.parse\<close> on a text: one value between optional white space, or a
  SyntaxError. Of two calls of the descent that follow each other, one consumes a
  character of the input, so twice the length of the text bounds their depth.\<close>

definition JSON_parse_text :: "string \<Rightarrow> error + jsval" where
  "JSON_parse_text s =
     (case parse_value (2 * length s + 2) (skip_ws s) of
        None \<Rightarrow> Inl SyntaxError
      | Some (v, rest) \<Rightarrow> if skip_ws rest = [] then Inr v else Inl SyntaxError)"

text \<open>JavaScript's ToString, which \<^verbatim>\<open>JSON.parse\<close> applies to an argument that is
  not a string.\<close>

fun js_to_string :: "jsval \<Rightarrow> string" where
  "js_to_string Undefined = ''undefined''"
| "js_to_string Null = ''null''"
| "js_to_string (Bool b) = (if b then ''true'' else ''false'')"
| "js_to_string (Num n) = show_int n"
| "js_to_string (Str s) = s"
| "js_to_string (Arr vs) =
     join_comma (map (\<lambda>v. if v = Undefined \<or> v = Null then [] else js_to_string v) vs)"
| "js_to_string (Obj ps) = ''[object Object]''"

definition JSON_parse :: "jsval \<Rightarrow> error + jsval" where
  "JSON_parse v = JSON_parse_text (js_to_string v)"

subsection \<open>JSON values\<close>

text \<open>The values that a JSON text denotes: no \<^verbatim>\<open>undefined\<close> anywhere, and no key
  twice in an object.\<close>

fun json_value :: "jsval \<Rightarrow> bool" where
  "json_value Undefined = False"
| "json_value Null = True"
| "json_value (Bool b) = True"
| "json_value (Num n) = True"
| "json_value (Str s) = True"
| "json_value (Arr vs) = list_all json_value vs"
| "json_value (Obj ps) = (distinct (map fst ps) \<and> list_all (\<lambda>p. json_value (snd p)) ps)"

text \<open>A bound on the depth of the calls that the descent makes on the text of a
  value.\<close>

fun calls :: "jsval \<Rightarrow> nat" where
  "calls (Arr vs) = Suc (length vs + sum_list (map calls vs))"
| "calls (Obj ps) = Suc (length ps + sum_list (map (\<lambda>p. calls (snd p)) ps))"
| "calls v = 1"

text \<open>What may follow the text of a value: nothing, a comma or a closing bracket.\<close>

definition delim :: "string \<Rightarrow> bool" where
  "delim r = (r = [] \<or> hd r = CHR '','' \<or> hd r = CHR '']'' \<or> hd r = CHR ''}'')"

section \<open>The database behind the handlers\<close>

text \<open>
  The handlers reach the database through \<^verbatim>\<open>dbFactory.getConnection().query(sql, params)\<close>
  and read \<^verbatim>\<open>dbConfig.type\<close>. The connection factory, the two adapters, the
  configuration and the schema are not among the source files; the SQL statements
  themselves are in the handlers. Each statement is modelled below by a function on the
  two tables, with the statement quoted above it.
\<close>

text \<open>Modelled from the spec: \<^verbatim>\<open>dbConfig.type\<close> of the missing
  \<^verbatim>\<open>config/database.js\<close>, the backend selected at start: \<^verbatim>\<open>sqlite\<close> or the
  Postgres-compatible mode. The handlers only test it for being \<^verbatim>\<open>'sqlite'\<close>.\<close>

datatype db_type = SQLite | PostgreSQL

text \<open>Modelled from the spec: the rows of the two tables of the missing schema, a
  Project with its generated \<open>id\<close> and its \<open>name\<close>, a Task with the twelve columns
  the spec lists. Keys and timestamps are natural numbers; the other columns hold the
  value that was bound, with SQL's \<^verbatim>\<open>NULL\<close> as \<open>Null\<close>.\<close>

record project_row =
  p_id :: nat
  p_name :: jsval

record task_row =
  t_id :: nat
  t_project_id :: nat
  t_title :: jsval
  t_description :: jsval
  t_status :: jsval
  t_priority :: jsval
  t_due_date :: jsval
  t_estimated_hours :: jsval
  t_actual_hours :: jsval
  t_tags :: jsval
  t_created_at :: nat
  t_updated_at :: nat

text \<open>Modelled from the spec: the state of the missing database, the two tables in
  the order of insertion and \<open>seq\<close>, the last task key that was generated.\<close>

record database =
  project_rows :: "project_row list"
  task_rows :: "task_row list"
  seq :: nat

text \<open>Modelled from the spec: the common result shape
  \<^verbatim>\<open>{ rows, rowCount, lastInsertId? }\<close> of the query adapter. Every insert of the handlers
  has a \<^verbatim>\<open>RETURNING\<close> clause, for which the spec has the adapter return the row in
  \<^verbatim>\<open>rows[0]\<close> and not expose \<^verbatim>\<open>lastID\<close>.\<close>

record query_result =
  rows :: "jsval list"
  rowCount :: nat
  lastID :: jsval

text \<open>Modelled from the spec: what an engine makes of a bound parameter where a
  generated key is expected (\<^verbatim>\<open>WHERE id = ?\<close>, the \<open>project_id\<close> of an insert). It
  raises an error, which the adapter passes on unchanged to the handler (spec 4.2 and 7),
  or it finds that the parameter denotes no key, or it finds the key that the parameter
  denotes. Which parameter an engine refuses and which it reads as a key depends on the
  engine and on the missing schema, and the spec has no rule for it: the handlers below
  take the readings of the two engines as their parameter \<open>K\<close>, and every property is
  proved for all readings.\<close>

type_synonym key_reading = "jsval \<Rightarrow> error + nat option"

text \<open>Modelled from the spec: a parameter that is \<^verbatim>\<open>undefined\<close> is bound as
  \<^verbatim>\<open>NULL\<close>; the Postgres adapter passes tags through untouched otherwise.\<close>

definition bind :: "jsval \<Rightarrow> jsval" where
  "bind v = (if v = Undefined then Null else v)"

text \<open>Modelled from the spec: SQL's \<^verbatim>\<open>column = ?\<close> as the missing engines decide
  it on a column that holds the bound value: never true for \<^verbatim>\<open>NULL\<close>.\<close>

definition sql_eq :: "jsval \<Rightarrow> jsval \<Rightarrow> bool" where
  "sql_eq c p = (c \<noteq> Null \<and> p \<noteq> Null \<and> c = p)"

text \<open>Modelled from the spec: SQL's \<^verbatim>\<open>COALESCE(?, column)\<close> of the missing
  engines, the "coalesce" of the partial update: the parameter unless it is \<^verbatim>\<open>NULL\<close>.\<close>

definition coalesce :: "jsval \<Rightarrow> jsval \<Rightarrow> jsval" where
  "coalesce p c = (if p = Null then c else p)"

text \<open>Modelled from the spec: a row of \<^verbatim>\<open>tasks\<close> as the object that the missing
  adapter returns in \<^verbatim>\<open>rows\<close> for \<^verbatim>\<open>t.*\<close> or \<^verbatim>\<open>RETURNING *\<close>, a property for each
  column in the order of the schema.\<close>

definition task_obj :: "task_row \<Rightarrow> (string \<times> jsval) list" where
  "task_obj t =
     [(''id'', Num (int (t_id t))),
      (''project_id'', Num (int (t_project_id t))),
      (''title'', t_title t),
      (''description'', t_description t),
      (''status'', t_status t),
      (''priority'', t_priority t),
      (''due_date'', t_due_date t),
      (''estimated_hours'', t_estimated_hours t),
      (''actual_hours'', t_actual_hours t),
      (''tags'', t_tags t),
      (''created_at'', Num (int (t_created_at t))),
      (''updated_at'', Num (int (t_updated_at t)))]"

text \<open>Modelled from the spec: what the missing engines do with
  \<^verbatim>\<open>tasks t LEFT JOIN projects p ON t.project_id = p.id\<close>, for one task: a row
  for every project with that key, or one row with a \<^verbatim>\<open>NULL\<close> name when there is
  none.\<close>

definition left_join :: "project_row list \<Rightarrow> task_row \<Rightarrow> (task_row \<times> jsval) list" where
  "left_join ps t =
     (case filter (\<lambda>p. t_project_id t = p_id p) ps of
        [] \<Rightarrow> [(t, Null)]
      | m # ms \<Rightarrow> map (\<lambda>p. (t, p_name p)) (m # ms))"

definition joined_obj :: "task_row \<times> jsval \<Rightarrow> jsval" where
  "joined_obj r = Obj (task_obj (fst r) @ [(''project_name'', snd r)])"

text \<open>The conditions that \<^verbatim>\<open>GET /api/tasks\<close> pushes and joins with \<^verbatim>\<open>AND\<close>,
  each with its bound parameter, and what they select.\<close>

datatype condition = By_project_id jsval | By_status jsval | By_priority jsval

fun holds :: "key_reading \<Rightarrow> task_row \<Rightarrow> condition \<Rightarrow> bool" where
  "holds k t (By_project_id p) = (k p = Inr (Some (t_project_id t)))"
| "holds k t (By_status p) = sql_eq (t_status t) p"
| "holds k t (By_priority p) = sql_eq (t_priority t) p"

text \<open>The error that the engine raises on the parameter of a condition, if it does.\<close>

fun condition_error :: "key_reading \<Rightarrow> condition \<Rightarrow> error option" where
  "condition_error k (By_project_id p) = (case k p of Inl e \<Rightarrow> Some e | Inr r \<Rightarrow> None)"
| "condition_error k (By_status p) = None"
| "condition_error k (By_priority p) = None"

text \<open>Modelled from the spec: \<^verbatim>\<open>query\<close> of the missing adapter on
  \<^verbatim>\<open>SELECT t.*, p.name as project_name FROM tasks t LEFT JOIN projects p
  ON t.project_id = p.id [WHERE c1 AND ...] ORDER BY t.created_at DESC\<close>.
  An error of the engine on a parameter is the result; otherwise the rows are selected,
  and rows with the same \<open>created_at\<close> stay in table order.\<close>

definition db_select_tasks ::
  "key_reading \<Rightarrow> condition list \<Rightarrow> database \<Rightarrow> error + query_result" where
  "db_select_tasks k conds db =
     (case List.map_filter (condition_error k) conds of
        e # es \<Rightarrow> Inl e
      | [] \<Rightarrow>
          (let found = filter (\<lambda>t. list_all (holds k t) conds) (task_rows db);
               joined = concat (map (left_join (project_rows db)) found);
               ordered = sort_key (\<lambda>r. - int (t_created_at (fst r))) joined
           in Inr \<lparr>rows = map joined_obj ordered, rowCount = length ordered,
                    lastID = Undefined\<rparr>))"

text \<open>Modelled from the spec: \<^verbatim>\<open>query\<close> of the missing adapter on
  \<^verbatim>\<open>SELECT t.*, p.name as project_name FROM tasks t LEFT JOIN projects p
  ON t.project_id = p.id WHERE t.id = ?\<close>.\<close>

definition db_select_task :: "key_reading \<Rightarrow> jsval \<Rightarrow> database \<Rightarrow> error + query_result" where
  "db_select_task k i db =
     (case k i of
        Inl e \<Rightarrow> Inl e
      | Inr r \<Rightarrow>
          (let found = filter (\<lambda>t. r = Some (t_id t)) (task_rows db);
               joined = concat (map (left_join (project_rows db)) found)
           in Inr \<lparr>rows = map joined_obj joined, rowCount = length joined,
                    lastID = Undefined\<rparr>))"

text \<open>Modelled from the spec: \<^verbatim>\<open>query\<close> of the missing adapter on
  \<^verbatim>\<open>SELECT id FROM projects WHERE id = ?\<close>.\<close>

definition db_select_project_id ::
  "key_reading \<Rightarrow> jsval \<Rightarrow> database \<Rightarrow> error + query_result" where
  "db_select_project_id k i db =
     (case k i of
        Inl e \<Rightarrow> Inl e
      | Inr r \<Rightarrow>
          (let found = filter (\<lambda>p. r = Some (p_id p)) (project_rows db)
           in Inr \<lparr>rows = map (\<lambda>p. Obj [(''id'', Num (int (p_id p)))]) found,
                    rowCount = length found, lastID = Undefined\<rparr>))"

text \<open>Modelled from the spec: \<^verbatim>\<open>query\<close> of the missing adapter on
  \<^verbatim>\<open>SELECT id FROM tasks WHERE id = ?\<close>.\<close>

definition db_select_task_id ::
  "key_reading \<Rightarrow> jsval \<Rightarrow> database \<Rightarrow> error + query_result" where
  "db_select_task_id k i db =
     (case k i of
        Inl e \<Rightarrow> Inl e
      | Inr r \<Rightarrow>
          (let found = filter (\<lambda>t. r = Some (t_id t)) (task_rows db)
           in Inr \<lparr>rows = map (\<lambda>t. Obj [(''id'', Num (int (t_id t)))]) found,
                    rowCount = length found, lastID = Undefined\<rparr>))"

text \<open>Modelled from the spec: \<^verbatim>\<open>query\<close> of the missing adapter on
  \<^verbatim>\<open>INSERT INTO tasks (project_id, title, description, status, priority, due_date,
  estimated_hours, tags) VALUES (?, ?, ?, ?, ?, ?, ?, ?) RETURNING *\<close>.
  The key is the next of the sequence, \<open>actual_hours\<close> takes its default
  \<^verbatim>\<open>NULL\<close> and both timestamps the current time. A \<open>project_id\<close> that the engine
  refuses, or that denotes no key, is an error of the database.\<close>

definition db_insert_task ::
  "key_reading \<Rightarrow> nat \<Rightarrow> jsval \<Rightarrow> jsval \<Rightarrow> jsval \<Rightarrow> jsval \<Rightarrow> jsval \<Rightarrow> jsval \<Rightarrow> jsval \<Rightarrow> jsval
     \<Rightarrow> database \<Rightarrow> error + query_result \<times> database" where
  "db_insert_task k now p1 p2 p3 p4 p5 p6 p7 p8 db =
     (case k p1 of
        Inl e \<Rightarrow> Inl e
      | Inr None \<Rightarrow> Inl DatabaseError
      | Inr (Some pid) \<Rightarrow>
          (let row = \<lparr>t_id = Suc (seq db), t_project_id = pid, t_title = bind p2,
                      t_description = bind p3, t_status = bind p4, t_priority = bind p5,
                      t_due_date = bind p6, t_estimated_hours = bind p7, t_actual_hours = Null,
                      t_tags = bind p8, t_created_at = now, t_updated_at = now\<rparr>
           in Inr (\<lparr>rows = [Obj (task_obj row)], rowCount = 1, lastID = Undefined\<rparr>,
                   db\<lparr>task_rows := task_rows db @ [row], seq := Suc (seq db)\<rparr>)))"

text \<open>Modelled from the spec: the \<^verbatim>\<open>SET\<close> clause, on one row, of
  \<^verbatim>\<open>UPDATE tasks SET title = COALESCE(?, title), description = COALESCE(?, description),
  status = COALESCE(?, status), priority = COALESCE(?, priority),
  due_date = COALESCE(?, due_date), estimated_hours = COALESCE(?, estimated_hours),
  actual_hours = COALESCE(?, actual_hours), tags = COALESCE(?, tags),
  updated_at = CURRENT_TIMESTAMP WHERE id = ? RETURNING *\<close>.\<close>

definition update_row ::
  "nat \<Rightarrow> jsval \<Rightarrow> jsval \<Rightarrow> jsval \<Rightarrow> jsval \<Rightarrow> jsval \<Rightarrow> jsval \<Rightarrow> jsval \<Rightarrow> jsval \<Rightarrow> task_row
     \<Rightarrow> task_row" where
  "update_row now p1 p2 p3 p4 p5 p6 p7 p8 t =
     t\<lparr>t_title := coalesce (bind p1) (t_title t),
       t_description := coalesce (bind p2) (t_description t),
       t_status := coalesce (bind p3) (t_status t),
       t_priority := coalesce (bind p4) (t_priority t),
       t_due_date := coalesce (bind p5) (t_due_date t),
       t_estimated_hours := coalesce (bind p6) (t_estimated_hours t),
       t_actual_hours := coalesce (bind p7) (t_actual_hours t),
       t_tags := coalesce (bind p8) (t_tags t),
       t_updated_at := now\<rparr>"

text \<open>Modelled from the spec: \<^verbatim>\<open>query\<close> of the missing adapter on that statement:
  an error of the engine on the key, or every row with the key changed by the
  \<^verbatim>\<open>SET\<close> clause, with the changed rows for \<^verbatim>\<open>RETURNING *\<close>.\<close>

definition db_update_task ::
  "key_reading \<Rightarrow> nat \<Rightarrow> jsval \<Rightarrow> jsval \<Rightarrow> jsval \<Rightarrow> jsval \<Rightarrow> jsval \<Rightarrow> jsval \<Rightarrow> jsval \<Rightarrow> jsval
     \<Rightarrow> jsval \<Rightarrow> database \<Rightarrow> error + query_result \<times> database" where
  "db_update_task k now p1 p2 p3 p4 p5 p6 p7 p8 i db =
     (case k i of
        Inl e \<Rightarrow> Inl e
      | Inr r \<Rightarrow>
          (let hit = (\<lambda>t. r = Some (t_id t));
               changed = map (update_row now p1 p2 p3 p4 p5 p6 p7 p8) (filter hit (task_rows db))
           in Inr (\<lparr>rows = map (\<lambda>t. Obj (task_obj t)) changed, rowCount = length changed,
                     lastID = Undefined\<rparr>,
                   db\<lparr>task_rows :=
                        map (\<lambda>t. if hit t then update_row now p1 p2 p3 p4 p5 p6 p7 p8 t else t)
                          (task_rows db)\<rparr>)))"

text \<open>Modelled from the spec: \<^verbatim>\<open>query\<close> of the missing adapter on
  \<^verbatim>\<open>DELETE FROM tasks WHERE id = ?\<close>: an error of the engine on the key, or the rows
  with the key deleted; no row is returned, \<^verbatim>\<open>rowCount\<close> counts the rows that were
  deleted.\<close>

definition db_delete_task ::
  "key_reading \<Rightarrow> jsval \<Rightarrow> database \<Rightarrow> error + query_result \<times> database" where
  "db_delete_task k i db =
     (case k i of
        Inl e \<Rightarrow> Inl e
      | Inr r \<Rightarrow>
          (let hit = (\<lambda>t. r = Some (t_id t))
           in Inr (\<lparr>rows = [], rowCount = length (filter hit (task_rows db)),
                     lastID = Undefined\<rparr>,
                   db\<lparr>task_rows := filter (\<lambda>t. \<not> hit t) (task_rows db)\<rparr>)))"

section \<open>The route handlers\<close>

text \<open>What a handler does with the request: it sends a response (\<^verbatim>\<open>res.status(n).json(body)\<close>,
  with 200 when no status is set), or it hands an exception to \<^verbatim>\<open>next\<close>.\<close>

datatype outcome = Respond nat jsval | Next error

text \<open>\<^verbatim>\<open>task.k\<close> and \<^verbatim>\<open>task.k = v\<close> on a value.\<close>

fun field :: "jsval \<Rightarrow> string \<Rightarrow> jsval" where
  "field (Obj ps) k = get_prop ps k"
| "field v k = Undefined"

fun with_field :: "jsval \<Rightarrow> string \<Rightarrow> jsval \<Rightarrow> jsval" where
  "with_field (Obj ps) k v = Obj (set_prop ps k v)"
| "with_field w k v = w"

text \<open>\<^verbatim>\<open>result.rows[0]\<close>: \<^verbatim>\<open>undefined\<close> when there is no row.\<close>

definition first_row :: "jsval list \<Rightarrow> jsval" where
  "first_row rs = (case rs of [] \<Rightarrow> Undefined | r # _ \<Rightarrow> r)"

definition failure :: "string \<Rightarrow> jsval" where
  "failure msg = Obj [(''success'', Bool False), (''error'', Str msg)]"

definition success_data :: "jsval \<Rightarrow> jsval" where
  "success_data d = Obj [(''success'', Bool True), (''data'', d)]"

text \<open>The tags of a row as the handlers return them:
  \<^verbatim>\<open>dbConfig.type === 'sqlite' && task.tags ? JSON.parse(task.tags) : task.tags\<close>.\<close>

definition read_tags :: "db_type \<Rightarrow> jsval \<Rightarrow> error + jsval" where
  "read_tags ty task =
     (if ty = SQLite \<and> truthy (field task ''tags'') then JSON_parse (field task ''tags'')
      else Inr (field task ''tags''))"

text \<open>\<^verbatim>\<open>result.rows.map(task => ({...task, tags: ...}))\<close>; the first row whose tags do
  not parse throws.\<close>

fun map_tags :: "db_type \<Rightarrow> jsval list \<Rightarrow> error + jsval list" where
  "map_tags ty [] = Inr []"
| "map_tags ty (task # rest) =
     (case read_tags ty task of
        Inl e \<Rightarrow> Inl e
      | Inr v \<Rightarrow>
          (case map_tags ty rest of
             Inl e \<Rightarrow> Inl e
           | Inr ts \<Rightarrow> Inr (with_field task ''tags'' v # ts)))"

text \<open>The end of \<^verbatim>\<open>GET /:id\<close>, \<^verbatim>\<open>POST\<close> and \<^verbatim>\<open>PUT\<close>:
  \<^verbatim>\<open>if (dbConfig.type === 'sqlite' && task.tags) task.tags = JSON.parse(task.tags)\<close>, then
  the response with the task as its data.\<close>

definition respond_task :: "db_type \<Rightarrow> nat \<Rightarrow> jsval \<Rightarrow> outcome" where
  "respond_task ty code task =
     (if ty = SQLite \<and> truthy (field task ''tags'') then
        (case JSON_parse (field task ''tags'') of
           Inl e \<Rightarrow> Next e
         | Inr v \<Rightarrow> Respond code (success_data (with_field task ''tags'' v)))
      else Respond code (success_data task))"

text \<open>Every handler is one \<^verbatim>\<open>try\<close> block whose \<^verbatim>\<open>catch\<close> hands the error to
  \<^verbatim>\<open>next\<close>: an error that a query raises ends the handler with \<open>Next\<close>, and the
  database is as the queries before it left it. The first argument \<open>K\<close> gives, for each
  backend, the reading of keys by its engine; the second is \<^verbatim>\<open>dbConfig.type\<close>.\<close>

text \<open>\<^verbatim>\<open>router.get('/')\<close>, with \<^verbatim>\<open>req.query\<close>.\<close>

definition get_tasks ::
  "(db_type \<Rightarrow> key_reading) \<Rightarrow> db_type \<Rightarrow> (string \<times> jsval) list \<Rightarrow> database
     \<Rightarrow> outcome \<times> database" where
  "get_tasks K ty query db =
     (let project_id = get_prop query ''project_id'';
          status = get_prop query ''status'';
          priority = get_prop query ''priority'';
          conditions = (if truthy project_id then [By_project_id project_id] else [])
                     @ (if truthy status then [By_status status] else [])
                     @ (if truthy priority then [By_priority priority] else [])
      in case db_select_tasks (K ty) conditions db of
           Inl e \<Rightarrow> (Next e, db)
         | Inr result \<Rightarrow>
             (case map_tags ty (rows result) of
                Inl e \<Rightarrow> (Next e, db)
              | Inr tasks \<Rightarrow>
                  (Respond 200 (Obj [(''success'', Bool True), (''data'', Arr tasks),
                                     (''count'', Num (int (length tasks)))]), db)))"

text \<open>\<^verbatim>\<open>router.get('/:id')\<close>, with \<^verbatim>\<open>req.params.id\<close>.\<close>

definition get_task ::
  "(db_type \<Rightarrow> key_reading) \<Rightarrow> db_type \<Rightarrow> string \<Rightarrow> database \<Rightarrow> outcome \<times> database" where
  "get_task K ty i db =
     (case db_select_task (K ty) (Str i) db of
        Inl e \<Rightarrow> (Next e, db)
      | Inr result \<Rightarrow>
          if length (rows result) = 0 then (Respond 404 (failure ''Task not found''), db)
          else (respond_task ty 200 (first_row (rows result)), db))"

text \<open>\<^verbatim>\<open>router.post('/')\<close>, with \<^verbatim>\<open>req.body\<close> and the time of the insert.\<close>

definition post_task ::
  "(db_type \<Rightarrow> key_reading) \<Rightarrow> db_type \<Rightarrow> nat \<Rightarrow> (string \<times> jsval) list \<Rightarrow> database
     \<Rightarrow> outcome \<times> database" where
  "post_task K ty now body db =
     (let project_id = get_prop body ''project_id'';
          title = get_prop body ''title'';
          description = get_prop body ''description'';
          status = get_prop body ''status'';
          priority = get_prop body ''priority'';
          due_date = get_prop body ''due_date'';
          estimated_hours = get_prop body ''estimated_hours'';
          tags = get_prop body ''tags''
      in if \<not> truthy project_id \<or> \<not> truthy title
         then (Respond 400 (failure ''project_id and title are required''), db)
         else
           (case db_select_project_id (K ty) project_id db of
              Inl e \<Rightarrow> (Next e, db)
            | Inr projectCheck \<Rightarrow>
                if length (rows projectCheck) = 0
                then (Respond 400 (failure ''Project not found''), db)
                else
                  (let tagsValue = (if ty = SQLite
                                    then (if truthy tags then JSON_stringify tags else Null)
                                    else tags)
                   in case db_insert_task (K ty) now project_id title (js_or description Null)
                             (js_or status (Str ''todo'')) (js_or priority (Str ''medium''))
                             (js_or due_date Null) (js_or estimated_hours Null) tagsValue db of
                        Inl e \<Rightarrow> (Next e, db)
                      | Inr (result, db') \<Rightarrow>
                          (let task = js_or (first_row (rows result))
                                        (Obj [(''id'', lastID result),
                                              (''project_id'', project_id),
                                              (''title'', title),
                                              (''description'', description),
                                              (''status'', js_or status (Str ''todo'')),
                                              (''priority'', js_or priority (Str ''medium'')),
                                              (''due_date'', due_date),
                                              (''estimated_hours'', estimated_hours),
                                              (''tags'', tags)])
                           in (respond_task ty 201 task, db')))))"

text \<open>\<^verbatim>\<open>router.put('/:id')\<close>, with \<^verbatim>\<open>req.params.id\<close>, \<^verbatim>\<open>req.body\<close> and the time of the
  update.\<close>

definition put_task ::
  "(db_type \<Rightarrow> key_reading) \<Rightarrow> db_type \<Rightarrow> nat \<Rightarrow> string \<Rightarrow> (string \<times> jsval) list \<Rightarrow> database
     \<Rightarrow> outcome \<times> database" where
  "put_task K ty now i body db =
     (let title = get_prop body ''title'';
          description = get_prop body ''description'';
          status = get_prop body ''status'';
          priority = get_prop body ''priority'';
          due_date = get_prop body ''due_date'';
          estimated_hours = get_prop body ''estimated_hours'';
          actual_hours = get_prop body ''actual_hours'';
          tags = get_prop body ''tags''
      in case db_select_task_id (K ty) (Str i) db of
           Inl e \<Rightarrow> (Next e, db)
         | Inr taskCheck \<Rightarrow>
             if length (rows taskCheck) = 0
             then (Respond 404 (failure ''Task not found''), db)
             else
               (let tagsValue = (if tags \<noteq> Undefined
                                 then (if ty = SQLite then JSON_stringify tags else tags)
                                 else Null)
                in case db_update_task (K ty) now (js_or title Null) (js_or description Null)
                          (js_or status Null) (js_or priority Null) (js_or due_date Null)
                          (js_or estimated_hours Null) (js_or actual_hours Null) tagsValue
                          (Str i) db of
                     Inl e \<Rightarrow> (Next e, db)
                   | Inr (result, db') \<Rightarrow>
                       (let task = js_or (first_row (rows result))
                                     (Obj [(''id'', Str i),
                                           (''title'', title),
                                           (''description'', description),
                                           (''status'', status),
                                           (''priority'', priority),
                                           (''due_date'', due_date),
                                           (''estimated_hours'', estimated_hours),
                                           (''actual_hours'', actual_hours),
                                           (''tags'', tags)])
                        in (respond_task ty 200 task, db'))))"

text \<open>\<^verbatim>\<open>router.delete('/:id')\<close>, with \<^verbatim>\<open>req.params.id\<close>.\<close>

definition delete_task ::
  "(db_type \<Rightarrow> key_reading) \<Rightarrow> db_type \<Rightarrow> string \<Rightarrow> database \<Rightarrow> outcome \<times> database" where
  "delete_task K ty i db =
     (case db_delete_task (K ty) (Str i) db of
        Inl e \<Rightarrow> (Next e, db)
      | Inr (result, db') \<Rightarrow>
          if rowCount result = 0 then (Respond 404 (failure ''Task not found''), db')
          else (Respond 200 (Obj [(''success'', Bool True),
                                  (''message'', Str ''Task deleted successfully'')]), db'))"

section \<open>Vocabulary of the properties\<close>

text \<open>The fields that \<^verbatim>\<open>PUT /api/tasks/:id\<close> reads from the body.\<close>

definition mutable_fields :: "string list" where
  "mutable_fields = [''title'', ''description'', ''status'', ''priority'', ''due_date'',
                     ''estimated_hours'', ''actual_hours'', ''tags'']"

text \<open>A body with the field \<open>k\<close> left out.\<close>

definition omit :: "string \<Rightarrow> (string \<times> jsval) list \<Rightarrow> (string \<times> jsval) list" where
  "omit k body = filter (\<lambda>p. fst p \<noteq> k) body"

text \<open>The stored value of the column \<open>k\<close> of a task.\<close>

definition stored :: "string \<Rightarrow> task_row \<Rightarrow> jsval" where
  "stored k t = get_prop (task_obj t) k"

text \<open>Whether a body has a property, and the names of its properties in order.\<close>

fun has_field :: "jsval \<Rightarrow> string \<Rightarrow> bool" where
  "has_field (Obj ps) k = (k \<in> set (map fst ps))"
| "has_field v k = False"

definition is_2xx :: "nat \<Rightarrow> bool" where
  "is_2xx c = (200 \<le> c \<and> c < 300)"

text \<open>The response envelope as the specification words it: \<open>success\<close> tells whether
  the status is 2xx, with \<open>data\<close> on success and \<open>error\<close> or \<open>message\<close> otherwise.
  An exception handed to \<^verbatim>\<open>next\<close> is no response of the handler.\<close>

fun envelope_claimed :: "outcome \<Rightarrow> bool" where
  "envelope_claimed (Respond c b) =
     (field b ''success'' = Bool (is_2xx c)
      \<and> (if is_2xx c then has_field b ''data''
          else has_field b ''error'' \<or> has_field b ''message''))"
| "envelope_claimed (Next e) = True"

fun fields :: "jsval \<Rightarrow> string list" where
  "fields (Obj ps) = map fst ps"
| "fields v = []"

text \<open>The envelope the handlers keep, by endpoint: the list (\<^verbatim>\<open>GET /\<close>), one task
  (\<^verbatim>\<open>GET /:id\<close>, \<^verbatim>\<open>POST /\<close>, \<^verbatim>\<open>PUT /:id\<close>) and the deletion (\<^verbatim>\<open>DELETE /:id\<close>).
  The body is an object whose \<open>success\<close> tells whether the status is 2xx; on success
  its properties are \<open>success\<close> with \<open>data\<close> and \<open>count\<close> for the list, with
  \<open>data\<close> for one task, with \<open>message\<close> for the deletion; otherwise they are
  \<open>success\<close> and \<open>error\<close>.\<close>

datatype endpoint = List_tasks | One_task | Deletion

fun success_fields :: "endpoint \<Rightarrow> string list" where
  "success_fields List_tasks = [''success'', ''data'', ''count'']"
| "success_fields One_task = [''success'', ''data'']"
| "success_fields Deletion = [''success'', ''message'']"

fun envelope :: "endpoint \<Rightarrow> outcome \<Rightarrow> bool" where
  "envelope ep (Respond c b) =
     (field b ''success'' = Bool (is_2xx c)
      \<and> fields b = (if is_2xx c then success_fields ep else [''success'', ''error'']))"
| "envelope ep (Next e) = True"

text \<open>An example of a reading of keys, for the concrete instances below; the theorems
  are proved for every reading. It reads a non-negative number and a text of decimal
  digits as the key with that value, and \<^verbatim>\<open>NULL\<close>, \<^verbatim>\<open>undefined\<close> or a negative
  number as no key. Any other parameter it refuses under PostgreSQL, as that engine
  refuses the text \<^verbatim>\<open>abc\<close>, which is no integer, and reads as no key under SQLite.
  The instances use it at the numbers 1 and 42, at the texts \<^verbatim>\<open>1\<close>, \<^verbatim>\<open>2\<close> and
  \<^verbatim>\<open>7\<close>, and under PostgreSQL at the text \<^verbatim>\<open>abc\<close>, where the engines do as it
  says; it does not describe the engines at other parameters.\<close>

fun example_key :: "db_type \<Rightarrow> key_reading" where
  "example_key ty (Num n) = Inr (if 0 \<le> n then Some (nat n) else None)"
| "example_key ty (Str s) =
     (if s \<noteq> [] \<and> list_all is_digit s then Inr (Some (digits_val s))
      else if ty = PostgreSQL then Inl DatabaseError else Inr None)"
| "example_key ty Null = Inr None"
| "example_key ty Undefined = Inr None"
| "example_key ty v = (if ty = PostgreSQL then Inl DatabaseError else Inr None)"

declare example_key.simps [simp del]

text \<open>A database with one project and one task, for the concrete instances below.\<close>

definition example_db :: database where
  "example_db =
     \<lparr>project_rows = [\<lparr>p_id = 1, p_name = Str ''Website''\<rparr>],
      task_rows = [\<lparr>t_id = 1, t_project_id = 1, t_title = Str ''Draft'',
                    t_description = Str ''First version'', t_status = Str ''todo'',
                    t_priority = Str ''medium'', t_due_date = Null,
                    t_estimated_hours = Num 3, t_actual_hours = Null, t_tags = Null,
                    t_created_at = 10, t_updated_at = 10\<rparr>],
      seq = 1\<rparr>"

text \<open>The stored tasks that \<^verbatim>\<open>GET /api/tasks?status=done&priority=high\<close> is to
  return, in the words of the specification: those whose status equals \<^verbatim>\<open>done\<close> and
  whose priority equals \<^verbatim>\<open>high\<close>.\<close>

definition matching_tasks :: "database \<Rightarrow> task_row list" where
  "matching_tasks db =
     filter (\<lambda>t. t_status t = Str ''done'' \<and> t_priority t = Str ''high'') (task_rows db)"

text \<open>The name of the project of a task, \<^verbatim>\<open>NULL\<close> when the project is gone.\<close>

definition project_name :: "project_row list \<Rightarrow> task_row \<Rightarrow> jsval" where
  "project_name ps t =
     (case filter (\<lambda>p. t_project_id t = p_id p) ps of [] \<Rightarrow> Null | m # ms \<Rightarrow> p_name m)"

text \<open>The stored tags of a task can be read back: always under Postgres, and under
  SQLite when the text is \<^verbatim>\<open>NULL\<close>, empty or parses as JSON.\<close>

definition tags_readable :: "db_type \<Rightarrow> task_row \<Rightarrow> bool" where
  "tags_readable ty t =
     (case read_tags ty (Obj (task_obj t)) of Inl e \<Rightarrow> False | Inr v \<Rightarrow> True)"

text \<open>A stored task as the list endpoint shows it: its columns, the tags read back,
  and the name of its project.\<close>

definition task_json :: "db_type \<Rightarrow> project_row list \<Rightarrow> task_row \<Rightarrow> jsval" where
  "task_json ty ps t =
     Obj (set_prop (task_obj t @ [(''project_name'', project_name ps t)]) ''tags''
            (case read_tags ty (Obj (task_obj t)) of Inl e \<Rightarrow> Undefined | Inr v \<Rightarrow> v))"

text \<open>A database under SQLite with three tasks, two of them done with high priority.\<close>

definition board_db :: database where
  "board_db =
     \<lparr>project_rows = [\<lparr>p_id = 1, p_name = Str ''Website''\<rparr>],
      task_rows =
        [\<lparr>t_id = 1, t_project_id = 1, t_title = Str ''Draft'', t_description = Null,
          t_status = Str ''done'', t_priority = Str ''high'', t_due_date = Null,
          t_estimated_hours = Null, t_actual_hours = Null,
          t_tags = Str [CHR ''['', CHR 0x22, CHR ''a'', CHR 0x22, CHR '']''],
          t_created_at = 10, t_updated_at = 10\<rparr>,
         \<lparr>t_id = 2, t_project_id = 1, t_title = Str ''Review'', t_description = Null,
          t_status = Str ''todo'', t_priority = Str ''high'', t_due_date = Null,
          t_estimated_hours = Null, t_actual_hours = Null, t_tags = Null,
          t_created_at = 20, t_updated_at = 20\<rparr>,
         \<lparr>t_id = 3, t_project_id = 1, t_title = Str ''Ship'', t_description = Null,
          t_status = Str ''done'', t_priority = Str ''high'', t_due_date = Null,
          t_estimated_hours = Null, t_actual_hours = Null, t_tags = Null,
          t_created_at = 30, t_updated_at = 30\<rparr>],
      seq = 3\<rparr>"

section \<open>Properties of the handlers\<close>

subsection \<open>Auxiliary facts\<close>

lemma get_prop_missing: "map_of body k = None \<Longrightarrow> get_prop body k = Undefined"
  by (simp add: get_prop_def)

lemma map_of_omit: "map_of (omit k body) k' = (if k' = k then None else map_of body k')"
  by (induction body) (auto simp: omit_def)

lemma get_prop_omit:
  "get_prop (omit k body) k' = (if k' = k then Undefined else get_prop body k')"
  by (simp add: get_prop_def map_of_omit)

lemma js_or_falsy [simp]:
  "js_or Undefined b = b" "js_or Null b = b" "js_or (Str []) b = b" "js_or (Num 0) b = b"
  by (simp_all add: js_or_def)

lemma js_or_obj [simp]: "js_or (Obj ps) b = Obj ps"
  by (simp add: js_or_def)

lemma coalesce_Null [simp]: "coalesce (bind Null) c = c"
  by (simp add: coalesce_def bind_def)

lemma update_row_nulls:
  "update_row now Null Null Null Null Null Null Null Null t = t\<lparr>t_updated_at := now\<rparr>"
  by (simp add: update_row_def)

lemma stored_simps:
  "stored ''title'' t = t_title t" "stored ''description'' t = t_description t"
  "stored ''estimated_hours'' t = t_estimated_hours t"
  "stored ''actual_hours'' t = t_actual_hours t"
  by (simp_all add: stored_def task_obj_def get_prop_def)


lemma example_key_examples:
  "example_key ty (Str ''1'') = Inr (Some 1)" "example_key ty (Str ''2'') = Inr (Some 2)"
  "example_key ty (Str ''7'') = Inr (Some 7)" "example_key ty (Num 1) = Inr (Some 1)"
  "example_key ty (Num 42) = Inr (Some 42)"
  "example_key PostgreSQL (Str ''abc'') = Inl DatabaseError"
  by (simp_all add: example_key.simps is_digit_def digits_val_def digit_val_def)

text \<open>\<^verbatim>\<open>PUT\<close> by what the engine makes of the id. After the existence check the
  \<^verbatim>\<open>UPDATE\<close> returns a row whenever the check found one, so the object built from the
  request body is never the task that is sent.\<close>

lemma put_task_unfold:
  "put_task K ty now i body db =
     (case K ty (Str i) of
        Inl e \<Rightarrow> (Next e, db)
      | Inr r \<Rightarrow>
          if filter (\<lambda>t. r = Some (t_id t)) (task_rows db) = []
          then (Respond 404 (failure ''Task not found''), db)
          else
            (let upd = update_row now (js_or (get_prop body ''title'') Null)
                         (js_or (get_prop body ''description'') Null)
                         (js_or (get_prop body ''status'') Null)
                         (js_or (get_prop body ''priority'') Null)
                         (js_or (get_prop body ''due_date'') Null)
                         (js_or (get_prop body ''estimated_hours'') Null)
                         (js_or (get_prop body ''actual_hours'') Null)
                         (if get_prop body ''tags'' \<noteq> Undefined
                          then (if ty = SQLite then JSON_stringify (get_prop body ''tags'')
                                else get_prop body ''tags'')
                          else Null)
             in (respond_task ty 200
                   (Obj (task_obj (upd (hd (filter (\<lambda>t. r = Some (t_id t)) (task_rows db)))))),
                 db\<lparr>task_rows := map (\<lambda>t. if r = Some (t_id t) then upd t else t)
                                     (task_rows db)\<rparr>)))"
proof (cases "K ty (Str i)")
  case (Inl e)
  then show ?thesis
    by (simp add: put_task_def db_select_task_id_def Let_def)
next
  case (Inr r)
  show ?thesis
  proof (cases "filter (\<lambda>t. r = Some (t_id t)) (task_rows db)")
    case Nil
    with Inr show ?thesis
      by (simp add: put_task_def db_select_task_id_def Let_def)
  next
    case (Cons t ts)
    with Inr show ?thesis
      by (simp add: put_task_def db_select_task_id_def db_update_task_def Let_def first_row_def)
  qed
qed

text \<open>\<^verbatim>\<open>POST\<close> likewise: past the guard and the project check the \<^verbatim>\<open>INSERT\<close>
  succeeds and returns the new row.\<close>

lemma post_task_unfold:
  "post_task K ty now body db =
     (if \<not> truthy (get_prop body ''project_id'') \<or> \<not> truthy (get_prop body ''title'')
      then (Respond 400 (failure ''project_id and title are required''), db)
      else case K ty (get_prop body ''project_id'') of
        Inl e \<Rightarrow> (Next e, db)
      | Inr None \<Rightarrow> (Respond 400 (failure ''Project not found''), db)
      | Inr (Some pid) \<Rightarrow>
          if filter (\<lambda>p. pid = p_id p) (project_rows db) = []
          then (Respond 400 (failure ''Project not found''), db)
          else
            (let row = \<lparr>t_id = Suc (seq db), t_project_id = pid,
                        t_title = get_prop body ''title'',
                        t_description = js_or (get_prop body ''description'') Null,
                        t_status = js_or (get_prop body ''status'') (Str ''todo''),
                        t_priority = js_or (get_prop body ''priority'') (Str ''medium''),
                        t_due_date = js_or (get_prop body ''due_date'') Null,
                        t_estimated_hours = js_or (get_prop body ''estimated_hours'') Null,
                        t_actual_hours = Null,
                        t_tags = (if ty = SQLite
                                  then (if truthy (get_prop body ''tags'')
                                        then JSON_stringify (get_prop body ''tags'') else Null)
                                  else bind (get_prop body ''tags'')),
                        t_created_at = now, t_updated_at = now\<rparr>
             in (respond_task ty 201 (Obj (task_obj row)),
                 db\<lparr>task_rows := task_rows db @ [row], seq := Suc (seq db)\<rparr>)))"
proof (cases "\<not> truthy (get_prop body ''project_id'') \<or> \<not> truthy (get_prop body ''title'')")
  case True
  then show ?thesis by (simp add: post_task_def Let_def)
next
  case ok: False
  have b: "\<And>a b. b \<noteq> Undefined \<Longrightarrow> bind (js_or a b) = js_or a b"
    by (auto simp: bind_def js_or_def)
  have t: "\<And>v. truthy v \<Longrightarrow> bind v = v"
    by (auto simp: bind_def)
  have s: "\<And>v. truthy v \<Longrightarrow> JSON_stringify v = Str (JSON_text v)"
    by (auto simp: JSON_stringify_def)
  have n: "bind Null = Null" "\<And>x. bind (Str x) = Str x"
    by (simp_all add: bind_def)
  show ?thesis
  proof (cases "K ty (get_prop body ''project_id'')")
    case (Inl e)
    with ok show ?thesis
      by (simp add: post_task_def db_select_project_id_def Let_def)
  next
    case (Inr r)
    show ?thesis
    proof (cases r)
      case None
      with ok Inr show ?thesis
        by (simp add: post_task_def db_select_project_id_def Let_def)
    next
      case (Some pid)
      show ?thesis
      proof (cases "filter (\<lambda>p. pid = p_id p) (project_rows db) = []")
        case True
        with ok Inr Some show ?thesis
          by (simp add: post_task_def db_select_project_id_def Let_def)
      next
        case False
        with ok Inr Some show ?thesis
          by (simp add: post_task_def db_select_project_id_def db_insert_task_def Let_def
                first_row_def b t s n)
      qed
    qed
  qed
qed

lemma envelope_respond_task: "is_2xx c \<Longrightarrow> envelope One_task (respond_task ty c task)"
  by (simp add: respond_task_def success_data_def get_prop_def split: sum.splits)

subsection \<open>Partial update\<close>

text \<open>
  Claim C3. For every existing task, a \<^verbatim>\<open>PUT /api/tasks/:id\<close> whose body supplies none
  of the mutable fields leaves every stored field of that task unchanged except
  \<open>updated_at\<close>, which becomes the current time. The other tasks and the rest of the
  database stay as they are. The task is the one whose key the engine reads the id as.
\<close>

theorem put_task_no_fields:
  assumes "list_all (\<lambda>k. map_of body k = None) mutable_fields"
  shows "snd (put_task K ty now i body db) =
           db\<lparr>task_rows := map (\<lambda>t. if K ty (Str i) = Inr (Some (t_id t))
                                       then t\<lparr>t_updated_at := now\<rparr> else t) (task_rows db)\<rparr>"
proof -
  from assms have u:
    "get_prop body ''title'' = Undefined" "get_prop body ''description'' = Undefined"
    "get_prop body ''status'' = Undefined" "get_prop body ''priority'' = Undefined"
    "get_prop body ''due_date'' = Undefined" "get_prop body ''estimated_hours'' = Undefined"
    "get_prop body ''actual_hours'' = Undefined" "get_prop body ''tags'' = Undefined"
    by (simp_all add: mutable_fields_def get_prop_missing)
  show ?thesis
  proof (cases "K ty (Str i)")
    case (Inl e)
    then show ?thesis by (simp add: put_task_unfold)
  next
    case (Inr r)
    show ?thesis
    proof (cases "filter (\<lambda>t. r = Some (t_id t)) (task_rows db) = []")
      case True
      then have "\<forall>t \<in> set (task_rows db). r \<noteq> Some (t_id t)"
        by (simp add: filter_empty_conv)
      then have "map (\<lambda>t. if r = Some (t_id t) then t\<lparr>t_updated_at := now\<rparr> else t)
                   (task_rows db) = task_rows db"
        by (simp add: map_idI)
      with True Inr show ?thesis by (simp add: put_task_unfold)
    next
      case False
      with Inr show ?thesis
        by (simp add: put_task_unfold u update_row_nulls Let_def)
    qed
  qed
qed

theorem put_task_no_fields_witness:
  "list_all (\<lambda>k. map_of [] k = None) mutable_fields
 \<and> snd (put_task example_key SQLite 20 ''1'' [] example_db) =
     example_db\<lparr>task_rows :=
       [\<lparr>t_id = 1, t_project_id = 1, t_title = Str ''Draft'',
         t_description = Str ''First version'', t_status = Str ''todo'',
         t_priority = Str ''medium'', t_due_date = Null,
         t_estimated_hours = Num 3, t_actual_hours = Null, t_tags = Null,
         t_created_at = 10, t_updated_at = 20\<rparr>]\<rparr>"
proof -
  have h: "list_all (\<lambda>k. map_of ([] :: (string \<times> jsval) list) k = None) mutable_fields"
    by (simp add: mutable_fields_def)
  show ?thesis
    using h put_task_no_fields [OF h, where K = example_key and ty = SQLite and now = 20
        and i = "''1''" and db = example_db]
    by (simp add: example_db_def example_key_examples)
qed

text \<open>
  Claim C10. For every existing task, a \<^verbatim>\<open>PUT /api/tasks/:id\<close> that supplies
  \<open>title\<close> or \<open>description\<close> as the empty string, or \<open>estimated_hours\<close> or
  \<open>actual_hours\<close> as 0, does exactly what the same request without that field does,
  and the stored value of that field is the one from before in every task.
\<close>

theorem put_task_falsy_value:
  assumes "(k = ''title'' \<or> k = ''description'') \<and> get_prop body k = Str []
         \<or> (k = ''estimated_hours'' \<or> k = ''actual_hours'') \<and> get_prop body k = Num 0"
  shows "put_task K ty now i body db = put_task K ty now i (omit k body) db
       \<and> map (stored k) (task_rows (snd (put_task K ty now i body db))) =
           map (stored k) (task_rows db)"
proof -
  have same: "put_task K ty now i body db = put_task K ty now i (omit k body) db"
  proof (cases "K ty (Str i)")
    case (Inl e)
    then show ?thesis by (simp add: put_task_unfold)
  next
    case (Inr r)
    have "js_or (get_prop (omit k body) k) Null = js_or (get_prop body k) Null"
      using assms by (auto simp: get_prop_omit)
    moreover have "\<And>k'. k' \<noteq> k \<Longrightarrow> get_prop (omit k body) k' = get_prop body k'"
      by (simp add: get_prop_omit)
    moreover have "k \<in> {''title'', ''description'', ''estimated_hours'', ''actual_hours''}"
      using assms by blast
    ultimately show ?thesis
      unfolding put_task_unfold Inr sum.case by (elim insertE emptyE; simp)
  qed
  have kept: "map (stored k) (task_rows (snd (put_task K ty now i body db))) =
                map (stored k) (task_rows db)"
  proof (cases "K ty (Str i)")
    case (Inl e)
    then show ?thesis by (simp add: put_task_unfold)
  next
    case (Inr r)
    with assms show ?thesis
      by (auto simp: put_task_unfold Let_def stored_simps update_row_def intro!: map_idI)
  qed
  from same kept show ?thesis by simp
qed

theorem put_task_falsy_value_witness:
  "get_prop [(''title'', Str [])] ''title'' = Str []
 \<and> put_task example_key SQLite 20 ''1'' [(''title'', Str [])] example_db =
     put_task example_key SQLite 20 ''1'' (omit ''title'' [(''title'', Str [])]) example_db
 \<and> map (stored ''title'')
       (task_rows (snd (put_task example_key SQLite 20 ''1'' [(''title'', Str [])] example_db))) =
     map (stored ''title'') (task_rows example_db)"
proof -
  have h: "get_prop [(''title'', Str [])] ''title'' = Str []"
    by (simp add: get_prop_def)
  have c: "put_task example_key SQLite 20 ''1'' [(''title'', Str [])] example_db =
             put_task example_key SQLite 20 ''1'' (omit ''title'' [(''title'', Str [])]) example_db
         \<and> map (stored ''title'')
               (task_rows (snd (put_task example_key SQLite 20 ''1'' [(''title'', Str [])]
                                  example_db))) =
             map (stored ''title'') (task_rows example_db)"
    by (rule put_task_falsy_value) (simp add: h)
  from h c show ?thesis by (intro conjI) blast+
qed

subsection \<open>Requests that are refused\<close>

text \<open>
  Claim C7. For every \<^verbatim>\<open>POST /api/tasks\<close> in which \<open>project_id\<close> or \<open>title\<close> is
  missing, the response is 400 with the error that names the two required fields, and
  the database is unchanged.
\<close>

theorem post_task_missing_required:
  assumes "map_of body ''project_id'' = None \<or> map_of body ''title'' = None"
  shows "post_task K ty now body db =
           (Respond 400 (failure ''project_id and title are required''), db)"
  using assms by (auto simp: post_task_def Let_def get_prop_missing)

theorem post_task_missing_required_witness:
  "map_of [(''project_id'', Num 1)] ''title'' = None
 \<and> post_task example_key PostgreSQL 20 [(''project_id'', Num 1)] example_db =
     (Respond 400 (failure ''project_id and title are required''), example_db)"
proof -
  have h: "map_of [(''project_id'', Num 1)] ''title'' = None"
    by simp
  show ?thesis
    using h post_task_missing_required [where body = "[(''project_id'', Num 1)]"
        and K = example_key and ty = PostgreSQL and now = 20 and db = example_db]
    by simp
qed







subsection \<open>Defaults of a new task\<close>

text \<open>
  Claim C8. For every valid \<^verbatim>\<open>POST /api/tasks\<close> (\<open>project_id\<close> and \<open>title\<close> given,
  the project exists) that omits \<open>status\<close>, the task that is created has status
  \<^verbatim>\<open>todo\<close>, in the table and in the response; for every such request that omits
  \<open>priority\<close>, it has priority \<^verbatim>\<open>medium\<close>.
\<close>

theorem post_task_defaults:
  assumes "truthy (get_prop body ''project_id'')" and "truthy (get_prop body ''title'')"
    and "list_ex (\<lambda>p. K ty (get_prop body ''project_id'') = Inr (Some (p_id p)))
           (project_rows db)"
  shows "(map_of body ''status'' = None \<longrightarrow>
            (\<exists>row. task_rows (snd (post_task K ty now body db)) = task_rows db @ [row]
                 \<and> t_status row = Str ''todo'')
          \<and> (\<forall>c b. fst (post_task K ty now body db) = Respond c b \<longrightarrow>
                 field (field b ''data'') ''status'' = Str ''todo''))
       \<and> (map_of body ''priority'' = None \<longrightarrow>
            (\<exists>row. task_rows (snd (post_task K ty now body db)) = task_rows db @ [row]
                 \<and> t_priority row = Str ''medium'')
          \<and> (\<forall>c b. fst (post_task K ty now body db) = Respond c b \<longrightarrow>
                 field (field b ''data'') ''priority'' = Str ''medium''))"
proof -
  from assms(3) obtain pid where pid: "K ty (get_prop body ''project_id'') = Inr (Some pid)"
    and ex: "filter (\<lambda>p. pid = p_id p) (project_rows db) \<noteq> []"
    by (auto simp: list_ex_iff filter_empty_conv)
  have data: "\<And>ty c b row. respond_task ty 201 (Obj (task_obj row)) = Respond c b \<Longrightarrow>
      field (field b ''data'') ''status'' = t_status row
    \<and> field (field b ''data'') ''priority'' = t_priority row"
    by (auto simp: respond_task_def success_data_def task_obj_def get_prop_def
          split: if_splits sum.splits)
  show ?thesis
    using assms(1,2) pid ex
    by (auto simp: post_task_unfold Let_def get_prop_missing dest!: data)
qed

theorem post_task_defaults_witness:
  "truthy (get_prop [(''project_id'', Num 1), (''title'', Str ''Plan'')] ''project_id'')
 \<and> truthy (get_prop [(''project_id'', Num 1), (''title'', Str ''Plan'')] ''title'')
 \<and> list_ex (\<lambda>p. example_key SQLite
                    (get_prop [(''project_id'', Num 1), (''title'', Str ''Plan'')] ''project_id'')
                   = Inr (Some (p_id p))) (project_rows example_db)
 \<and> map_of [(''project_id'', Num 1), (''title'', Str ''Plan'')] ''status'' = None
 \<and> map_of [(''project_id'', Num 1), (''title'', Str ''Plan'')] ''priority'' = None
 \<and> (\<exists>row. task_rows (snd (post_task example_key SQLite 20
                               [(''project_id'', Num 1), (''title'', Str ''Plan'')]
                               example_db)) = task_rows example_db @ [row]
          \<and> t_status row = Str ''todo'')
 \<and> (\<exists>row. task_rows (snd (post_task example_key SQLite 20
                               [(''project_id'', Num 1), (''title'', Str ''Plan'')]
                               example_db)) = task_rows example_db @ [row]
          \<and> t_priority row = Str ''medium'')"
proof -
  let ?body = "[(''project_id'', Num 1), (''title'', Str ''Plan'')]"
  have h1: "truthy (get_prop ?body ''project_id'')" and h2: "truthy (get_prop ?body ''title'')"
    by (simp_all add: get_prop_def)
  have h3: "list_ex (\<lambda>p. example_key SQLite (get_prop ?body ''project_id'') = Inr (Some (p_id p)))
              (project_rows example_db)"
    by (simp add: example_db_def get_prop_def example_key_examples)
  have m: "map_of ?body ''status'' = None" "map_of ?body ''priority'' = None"
    by simp_all
  from post_task_defaults [where K = example_key and ty = SQLite and body = ?body
      and db = example_db and now = 20, OF h1 h2 h3] m h1 h2 h3
  show ?thesis by blast
qed

subsection \<open>The response envelope\<close>

text \<open>
  Claim C9, as amended. Every response that a handler of the task routes sends is an
  object with the boolean \<open>success\<close>, true exactly when the status is 2xx. On success
  it carries, with \<open>success\<close> and nothing else, \<open>data\<close> and \<open>count\<close> for the list,
  \<open>data\<close> for \<^verbatim>\<open>GET /:id\<close>, \<^verbatim>\<open>POST\<close> and \<^verbatim>\<open>PUT\<close>, and \<open>message\<close> for \<^verbatim>\<open>DELETE\<close>;
  otherwise it carries \<open>success\<close> and \<open>error\<close>.
\<close>

theorem response_envelope:
  "envelope List_tasks (fst (get_tasks K ty query db))
 \<and> envelope One_task (fst (get_task K ty i db))
 \<and> envelope One_task (fst (post_task K ty now body db))
 \<and> envelope One_task (fst (put_task K ty now i body db))
 \<and> envelope Deletion (fst (delete_task K ty i db))"
proof -
  have c: "is_2xx 200" "is_2xx 201" "\<not> is_2xx 400" "\<not> is_2xx 404"
    by (simp_all add: is_2xx_def)
  have "envelope List_tasks
          (fst (case r of
                  Inl e \<Rightarrow> (Next e, db)
                | Inr result \<Rightarrow>
                    (case map_tags ty (rows result) of
                       Inl e \<Rightarrow> (Next e, db)
                     | Inr tasks \<Rightarrow>
                         (Respond 200 (Obj [(''success'', Bool True), (''data'', Arr tasks),
                                            (''count'', Num (int (length tasks)))]), db))))"
    for r
    by (simp add: get_prop_def c split: sum.splits)
  then have 1: "envelope List_tasks (fst (get_tasks K ty query db))"
    unfolding get_tasks_def Let_def .
  have 2: "envelope One_task (fst (get_task K ty i db))"
    by (simp add: get_task_def Let_def failure_def get_prop_def envelope_respond_task c
          split: sum.splits)
  have 3: "envelope One_task (fst (post_task K ty now body db))"
    by (simp add: post_task_unfold Let_def failure_def get_prop_def envelope_respond_task c
          split: sum.splits option.splits)
  have 4: "envelope One_task (fst (put_task K ty now i body db))"
    by (simp add: put_task_unfold Let_def failure_def get_prop_def envelope_respond_task c
          split: sum.splits)
  have 5: "envelope Deletion (fst (delete_task K ty i db))"
    by (simp add: delete_task_def db_delete_task_def Let_def failure_def get_prop_def c
          split: sum.splits)
  from 1 2 3 4 5 show ?thesis by simp
qed

theorem response_envelope_witness:
  "envelope List_tasks (fst (get_tasks example_key SQLite [] example_db))
 \<and> envelope One_task (fst (get_task example_key SQLite ''1'' example_db))
 \<and> envelope One_task (fst (post_task example_key SQLite 20 [(''title'', Str ''Plan'')] example_db))
 \<and> envelope One_task
       (fst (put_task example_key SQLite 20 ''1'' [(''title'', Str ''Plan'')] example_db))
 \<and> envelope Deletion (fst (delete_task example_key SQLite ''1'' example_db))"
  by (rule response_envelope)

text \<open>
  Claim C9 as it is worded puts \<open>message\<close> on the side of the failures and asks for
  \<open>data\<close> on every success. Deleting the task of the example database succeeds with
  status 200 and a body that has \<open>message\<close> and no \<open>data\<close>.
\<close>

theorem response_envelope_counterexample:
  "fst (delete_task example_key SQLite ''1'' example_db) =
     Respond 200 (Obj [(''success'', Bool True), (''message'', Str ''Task deleted successfully'')])
 \<and> \<not> envelope_claimed (fst (delete_task example_key SQLite ''1'' example_db))"
  by (simp add: delete_task_def db_delete_task_def Let_def example_db_def example_key_examples
        is_2xx_def)

subsection \<open>Printing and parsing\<close>

text \<open>What \<^verbatim>\<open>JSON.stringify\<close> writes for a string, \<^verbatim>\<open>JSON.parse\<close> reads back,
  escape by escape; the same holds for the decimal digits of a number or a key.\<close>

lemma hex_val_hex_char: "d < 16 \<Longrightarrow> hex_val (hex_char d) = Some d"
proof -
  assume "d < 16"
  then have "d \<in> {0,1,2,3,4,5,6,7,8,9,10,11,12,13,14,15}" by simp arith
  then show ?thesis
    by (elim insertE emptyE) (simp_all add: hex_val_def hex_char_def)
qed

lemma char_of_of_char_nat: "char_of (of_char c :: nat) = c"
  by simp

lemma parse_chars_quote_char:
  "parse_chars (quote_char c @ r) = cons_chars c (parse_chars r)"
proof -
  consider (q) "c = CHR 0x22" | (b) "c = CHR 0x5C" | (bs) "c = CHR 0x08" | (ff) "c = CHR 0x0C"
    | (nl) "c = CHR 0x0A" | (cr) "c = CHR 0x0D" | (tb) "c = CHR 0x09"
    | (ctl) "c \<notin> {CHR 0x22, CHR 0x5C, CHR 0x08, CHR 0x0C, CHR 0x0A, CHR 0x0D, CHR 0x09}" "(of_char c :: nat) < 32"
    | (plain) "c \<notin> {CHR 0x22, CHR 0x5C, CHR 0x08, CHR 0x0C, CHR 0x0A, CHR 0x0D, CHR 0x09}" "\<not> (of_char c :: nat) < 32"
    by blast
  then show ?thesis
  proof cases
    case ctl
    let ?n = "of_char c :: nat"
    have h1: "hex_val (hex_char (?n div 16)) = Some (?n div 16)"
      using ctl(2) by (intro hex_val_hex_char) simp
    have h2: "hex_val (hex_char (?n mod 16)) = Some (?n mod 16)"
      by (intro hex_val_hex_char) simp
    have z: "hex_val (CHR ''0'') = Some 0" by (simp add: hex_val_def)
    have rebuilt: "char_of (16 * (?n div 16) + ?n mod 16) = c"
      by simp
    from ctl show ?thesis
      by (simp add: quote_char_def h1 h2 z rebuilt)
  qed (simp_all add: quote_char_def unescape_def)
qed

lemma parse_chars_quoted:
  "parse_chars (concat (map quote_char s) @ CHR 0x22 # r) = Some (s, r)"
  by (induction s) (simp_all add: parse_chars_quote_char cons_chars_def)


lemma of_char_digit_char: "d < 10 \<Longrightarrow> (of_char (digit_char d) :: nat) = 48 + d"
  by (simp add: digit_char_def)

lemma digit_char_props: "d < 10 \<Longrightarrow> is_digit (digit_char d) \<and> digit_val (digit_char d) = d"
  by (simp add: is_digit_def digit_val_def of_char_digit_char)

lemma show_nat_not_Nil: "show_nat n \<noteq> []"
  by (subst show_nat.simps) simp

lemma show_nat_digits: "list_all is_digit (show_nat n)"
proof (induction n rule: show_nat.induct)
  case (1 n)
  show ?case
  proof (cases "n < 10")
    case True
    then show ?thesis by (subst show_nat.simps) (simp add: digit_char_props)
  next
    case False
    with 1 show ?thesis by (subst show_nat.simps) (simp add: digit_char_props)
  qed
qed

lemma digits_val_snoc: "digits_val (ds @ [c]) = 10 * digits_val ds + digit_val c"
  by (simp add: digits_val_def)

lemma digits_val_show_nat: "digits_val (show_nat n) = n"
proof (induction n rule: show_nat.induct)
  case (1 n)
  show ?case
  proof (cases "n < 10")
    case True
    then show ?thesis
      by (subst show_nat.simps) (simp add: digits_val_def digit_char_props)
  next
    case False
    with 1 show ?thesis
      by (subst show_nat.simps) (simp add: digits_val_snoc digit_char_props)
  qed
qed


lemma not_ws_quote: "\<not> is_ws (CHR 0x22)" "\<not> is_ws (CHR '','')" "\<not> is_ws (CHR '']'')"
  "\<not> is_ws (CHR ''['')"
  by (simp_all add: is_ws_def)

lemma parse_value_string:
  "0 < n \<Longrightarrow> parse_value n (quote s @ r) = Some (Str s, r)"
  by (cases n) (simp_all add: quote_def parse_chars_quoted)

lemma join_comma_Cons:
  "join_comma (x # xs) = (if xs = [] then x else x @ CHR '','' # join_comma xs)"
  by (cases xs) simp_all

lemma is_digit_not_special:
  assumes "is_digit c"
  shows "\<not> is_ws c" "c \<noteq> CHR ''[''" "c \<noteq> CHR '']''" "c \<noteq> CHR ''{''" "c \<noteq> CHR ''}''"
    "c \<noteq> CHR 0x22" "c \<noteq> CHR ''t''" "c \<noteq> CHR ''f''" "c \<noteq> CHR ''n''" "c \<noteq> CHR ''-''"
    "c \<noteq> CHR '',''" "c \<noteq> CHR ''.''" "c \<noteq> CHR ''e''" "c \<noteq> CHR ''E''"
  using assms by (auto simp: is_digit_def is_ws_def)

lemma delim_not_digit: "delim r \<Longrightarrow> r \<noteq> [] \<Longrightarrow> \<not> is_digit (hd r)"
  by (auto simp: delim_def dest: is_digit_not_special)

lemma show_nat_hd_digit: "\<exists>c w. show_nat n = c # w \<and> is_digit c"
  using show_nat_digits [of n] show_nat_not_Nil [of n]
  by (cases "show_nat n") auto

lemma digit_char_zero: "d < 10 \<Longrightarrow> digit_char d = CHR ''0'' \<longleftrightarrow> d = 0"
proof -
  assume d: "d < 10"
  have "digit_char d = CHR ''0'' \<longleftrightarrow> (of_char (digit_char d) :: nat) = of_char (CHR ''0'')"
    by (metis of_char_eq_iff)
  also have "\<dots> \<longleftrightarrow> d = 0"
    using d by (simp add: of_char_digit_char)
  finally show ?thesis .
qed

lemma show_nat_leading_zero: "hd (show_nat n) = CHR ''0'' \<Longrightarrow> length (show_nat n) = 1"
proof (induction n rule: show_nat.induct)
  case (1 n)
  show ?case
  proof (cases "n < 10")
    case True
    then show ?thesis by (subst show_nat.simps) simp
  next
    case False
    then have sn: "show_nat n = show_nat (n div 10) @ [digit_char (n mod 10)]"
      by (subst show_nat.simps) simp
    with "1.prems" have z: "hd (show_nat (n div 10)) = CHR ''0''"
      by (simp add: show_nat_not_Nil)
    with 1 False have l: "length (show_nat (n div 10)) = 1" by simp
    have small: "n div 10 < 10 \<Longrightarrow> show_nat (n div 10) = [digit_char (n div 10)]"
      by (subst show_nat.simps) simp
    have big: "\<not> n div 10 < 10 \<Longrightarrow> length (show_nat (n div 10)) \<ge> 2"
      by (subst show_nat.simps) (simp add: Suc_le_eq show_nat_not_Nil)
    from l big have lt: "n div 10 < 10" by fastforce
    with z small have "digit_char (n div 10) = CHR ''0''" by simp
    with lt have "n div 10 = 0" by (simp add: digit_char_zero)
    with False show ?thesis by simp
  qed
qed

lemma parse_digits_show_nat:
  assumes "delim r"
  shows "parse_digits (show_nat n @ r) = Some (n, r)"
proof -
  have all: "\<And>x. x \<in> set (show_nat n) \<Longrightarrow> is_digit x"
    using show_nat_digits [of n] by (simp add: list_all_iff)
  have stop: "takeWhile is_digit r = []" "dropWhile is_digit r = r"
    using delim_not_digit [OF assms] by (cases r; simp)+
  have tw: "takeWhile is_digit (show_nat n @ r) = show_nat n"
    using all by (simp add: takeWhile_append2 stop)
  have dw: "dropWhile is_digit (show_nat n @ r) = r"
    using all by (simp add: dropWhile_append2 stop)
  have lead: "\<not> (hd (show_nat n) = CHR ''0'' \<and> 1 < length (show_nat n))"
    using show_nat_leading_zero [of n] by auto
  have frac: "r \<noteq> [] \<Longrightarrow> hd r \<noteq> CHR ''.'' \<and> hd r \<noteq> CHR ''e'' \<and> hd r \<noteq> CHR ''E''"
    using assms by (auto simp: delim_def)
  show ?thesis
    unfolding parse_digits_def tw dw Let_def
    using lead frac by (auto simp: show_nat_not_Nil digits_val_show_nat)
qed

lemma parse_number_show_int:
  assumes "delim r"
  shows "parse_number (show_int i @ r) = Some (Num i, r)"
proof (cases "i < 0")
  case True
  then show ?thesis
    by (simp add: parse_number_def show_int_def parse_digits_show_nat [OF assms])
next
  case False
  obtain c w where cw: "show_nat (nat i) = c # w" and c: "is_digit c"
    using show_nat_hd_digit by blast
  have "parse_number ((c # w) @ r) = Some (Num i, r)"
    using parse_digits_show_nat [OF assms, of "nat i"] False is_digit_not_special(10) [OF c]
    by (simp add: parse_number_def cw)
  with False show ?thesis
    by (simp add: show_int_def cw)
qed

text \<open>Every JSON value is read back from its text, whatever follows it inside an array
  or an object, once the bound on the calls is large enough.\<close>

lemma json_value_not_Undefined: "json_value v \<Longrightarrow> v \<noteq> Undefined"
  by auto

lemma JSON_text_start:
  assumes "json_value v"
  shows "\<exists>c w. JSON_text v = c # w \<and> \<not> is_ws c \<and> c \<noteq> CHR '']'' \<and> c \<noteq> CHR ''}''"
proof (cases v)
  case (Num i)
  obtain c w where "show_nat (nat i) = c # w" "is_digit c"
    using show_nat_hd_digit by blast
  moreover obtain c' w' where "show_nat (nat (- i)) = c' # w'" "is_digit c'"
    using show_nat_hd_digit by blast
  ultimately show ?thesis
    using Num by (auto simp: show_int_def is_ws_def dest: is_digit_not_special)
qed (use assms in \<open>auto simp: is_ws_def quote_def\<close>)

lemma skip_ws_start: "\<not> is_ws c \<Longrightarrow> skip_ws (c # w) = c # w"
  by simp

lemma parse_value_Num:
  assumes "delim r"
  shows "parse_value (Suc n) (show_int i @ r) = Some (Num i, r)"
proof -
  have "\<exists>c w. show_int i = c # w \<and> (c = CHR ''-'' \<or> is_digit c)"
    using show_nat_hd_digit [of "nat i"] by (cases "i < 0") (auto simp: show_int_def)
  then obtain c w where cw: "show_int i = c # w" and c: "c = CHR ''-'' \<or> is_digit c"
    by blast
  have ne: "c \<noteq> CHR ''[''" "c \<noteq> CHR ''{''" "c \<noteq> CHR 0x22" "c \<noteq> CHR ''t''"
    "c \<noteq> CHR ''f''" "c \<noteq> CHR ''n''"
    using c is_digit_not_special [of c] by blast+
  have "parse_value (Suc n) ((c # w) @ r) = parse_number ((c # w) @ r)"
    by (simp add: ne)
  then show ?thesis
    using parse_number_show_int [OF assms, of i] by (simp add: cw)
qed

lemma parse_elems_JSON_text:
  assumes "\<And>x n r. x \<in> set (v # vs) \<Longrightarrow> calls x \<le> n \<Longrightarrow> delim r \<Longrightarrow>
             parse_value n (JSON_text x @ r) = Some (x, r)"
    and "list_all json_value (v # vs)"
    and "length (v # vs) + sum_list (map calls (v # vs)) \<le> n"
  shows "parse_elems n (join_comma (map JSON_text (v # vs)) @ CHR '']'' # r) = Some (v # vs, r)"
  using assms
proof (induction vs arbitrary: v n)
  case Nil
  then obtain m where n: "n = Suc m" and m: "calls v \<le> m" by (cases n) auto
  have "parse_value m (JSON_text v @ CHR '']'' # r) = Some (v, CHR '']'' # r)"
    using Nil.prems(1) [of v m "CHR '']'' # r"] m by (simp add: delim_def)
  then show ?case
    by (simp add: n is_ws_def)
next
  case (Cons v' vs)
  then obtain m where n: "n = Suc m" and m: "calls v \<le> m"
    and le: "length (v' # vs) + sum_list (map calls (v' # vs)) \<le> m"
    by (cases n) auto
  have first: "parse_value m (JSON_text v @ CHR '','' # join_comma (map JSON_text (v' # vs)) @ CHR '']'' # r)
                 = Some (v, CHR '','' # join_comma (map JSON_text (v' # vs)) @ CHR '']'' # r)"
    using Cons.prems(1) [of v m] m by (simp add: delim_def)
  have tail: "parse_elems m (join_comma (map JSON_text (v' # vs)) @ CHR '']'' # r) = Some (v' # vs, r)"
    using Cons.prems(1,2) by (intro Cons.IH [OF _ _ le]) auto
  obtain c w where cw: "JSON_text v' = c # w" and c: "\<not> is_ws c"
    using JSON_text_start [of v'] Cons.prems(2) by auto
  have sk: "skip_ws (join_comma (map JSON_text (v' # vs)) @ CHR '']'' # r) =
              join_comma (map JSON_text (v' # vs)) @ CHR '']'' # r"
    using c by (simp add: join_comma_Cons cw)
  have "parse_elems (Suc m) (JSON_text v @ CHR '','' # join_comma (map JSON_text (v' # vs)) @ CHR '']'' # r)
          = Some (v # v' # vs, r)"
    by (simp add: first sk tail is_ws_def del: join_comma.simps list.map)
  then show ?case
    by (simp add: n)
qed

lemma not_ws_punct:
  "\<not> is_ws (CHR '':'')" "\<not> is_ws (CHR ''}'')" "\<not> is_ws (CHR ''{'')"
  by (simp_all add: is_ws_def)

lemma parse_members_JSON_text:
  assumes "\<And>x n r. x \<in> snd ` set (p # ps) \<Longrightarrow> calls x \<le> n \<Longrightarrow> delim r \<Longrightarrow>
             parse_value n (JSON_text x @ r) = Some (x, r)"
    and "list_all (\<lambda>p. json_value (snd p)) (p # ps)"
    and "length (p # ps) + sum_list (map (\<lambda>p. calls (snd p)) (p # ps)) \<le> n"
  shows "parse_members n
           (join_comma (map (\<lambda>p. quote (fst p) @ CHR '':'' # JSON_text (snd p)) (p # ps))
              @ CHR ''}'' # r) = Some (p # ps, r)"
  using assms
proof (induction ps arbitrary: p n)
  case Nil
  then obtain m where n: "n = Suc m" and m: "calls (snd p) \<le> m" by (cases n) auto
  obtain c w where cw: "JSON_text (snd p) = c # w" and c: "\<not> is_ws c"
    using JSON_text_start [of "snd p"] Nil.prems(2) by auto
  have val: "parse_value m (c # w @ CHR ''}'' # r) = Some (snd p, CHR ''}'' # r)"
    using Nil.prems(1) [of "snd p" m "CHR ''}'' # r"] m by (simp add: delim_def cw)
  have "parse_members (Suc m)
          (CHR 0x22 # concat (map quote_char (fst p)) @ CHR 0x22 # CHR '':'' # c # w @ CHR ''}'' # r)
        = Some ([(fst p, snd p)], r)"
    by (simp add: parse_chars_quoted not_ws_punct not_ws_quote c val)
  then show ?case
    by (simp add: n quote_def cw)
next
  case (Cons p' ps)
  then obtain m where n: "n = Suc m" and m: "calls (snd p) \<le> m"
    and le: "length (p' # ps) + sum_list (map (\<lambda>p. calls (snd p)) (p' # ps)) \<le> m"
    by (cases n) auto
  define rest where
    "rest = join_comma (map (\<lambda>p. quote (fst p) @ CHR '':'' # JSON_text (snd p)) (p' # ps)) @ CHR ''}'' # r"
  obtain c w where cw: "JSON_text (snd p) = c # w" and c: "\<not> is_ws c"
    using JSON_text_start [of "snd p"] Cons.prems(2) by auto
  have val: "parse_value m (c # w @ CHR '','' # rest) = Some (snd p, CHR '','' # rest)"
    using Cons.prems(1) [of "snd p" m "CHR '','' # rest"] m by (simp add: delim_def cw)
  have tail: "parse_members m rest = Some (p' # ps, r)"
    unfolding rest_def using Cons.prems(1,2) by (intro Cons.IH [OF _ _ le]) auto
  have "\<exists>u. rest = CHR 0x22 # u"
    by (simp add: rest_def join_comma_Cons quote_def)
  then have sk: "skip_ws rest = rest"
    by (auto simp: not_ws_quote)
  have "parse_members (Suc m)
          (CHR 0x22 # concat (map quote_char (fst p)) @ CHR 0x22 # CHR '':'' # c # w @ CHR '','' # rest)
        = Some ((fst p, snd p) # p' # ps, r)"
    by (simp add: parse_chars_quoted not_ws_punct not_ws_quote c val sk tail)
  then show ?case
    by (simp add: n quote_def cw rest_def)
qed

lemma set_prop_new: "k \<notin> fst ` set ps \<Longrightarrow> set_prop ps k v = ps @ [(k, v)]"
  by (induction ps) auto

lemma foldl_set_prop:
  "distinct (map fst ps) \<Longrightarrow> fst ` set acc \<inter> fst ` set ps = {} \<Longrightarrow>
   foldl (\<lambda>qs m. set_prop qs (fst m) (snd m)) acc ps = acc @ ps"
proof (induction ps arbitrary: acc)
  case Nil
  then show ?case by simp
next
  case (Cons p ps)
  have "set_prop acc (fst p) (snd p) = acc @ [p]"
    using Cons.prems(2) by (simp add: set_prop_new)
  moreover have "foldl (\<lambda>qs m. set_prop qs (fst m) (snd m)) (acc @ [p]) ps = (acc @ [p]) @ ps"
    using Cons.prems by (intro Cons.IH) auto
  ultimately show ?case by simp
qed

lemma parse_value_JSON_text:
  "json_value v \<Longrightarrow> calls v \<le> n \<Longrightarrow> delim r \<Longrightarrow>
   parse_value n (JSON_text v @ r) = Some (v, r)"
proof (induction v arbitrary: n r)
  case Undefined
  then show ?case by simp
next
  case Null
  then show ?case by (cases n) simp_all
next
  case (Bool b)
  then show ?case by (cases n) simp_all
next
  case (Num i)
  then obtain m where "n = Suc m" by (cases n) auto
  with Num show ?case by (simp add: parse_value_Num del: parse_value.simps)
next
  case (Str s)
  then show ?case by (simp add: parse_value_string)
next
  case (Arr vs)
  from Arr.prems(2) obtain m where n: "n = Suc m" by (cases n) auto
  show ?case
  proof (cases vs)
    case Nil
    then show ?thesis by (simp add: n not_ws_quote)
  next
    case (Cons v vs')
    define body where "body = join_comma (map JSON_text (v # vs')) @ CHR '']'' # r"
    have elems: "parse_elems m body = Some (v # vs', r)"
      unfolding body_def
    proof (rule parse_elems_JSON_text)
      show "list_all json_value (v # vs')"
        using Arr.prems(1) Cons by simp
      show "length (v # vs') + sum_list (map calls (v # vs')) \<le> m"
        using Arr.prems(2) Cons n by simp
      show "parse_value k (JSON_text x @ q) = Some (x, q)"
        if "x \<in> set (v # vs')" "calls x \<le> k" "delim q" for x k q
        using that Arr.IH [of x k q] Arr.prems(1) Cons by (auto simp: list_all_iff)
    qed
    obtain c w where cw: "JSON_text v = c # w" and c: "\<not> is_ws c" "c \<noteq> CHR '']''"
      using JSON_text_start [of v] Arr.prems(1) Cons by auto
    have "\<exists>u. body = c # u"
      by (simp add: body_def join_comma_Cons cw)
    then obtain u where u: "body = c # u" by blast
    have "parse_value (Suc m) (CHR ''['' # body) = Some (Arr (v # vs'), r)"
      using elems unfolding u by (simp add: c)
    then show ?thesis
      by (simp add: n Cons body_def)
  qed
next
  case (Obj ps)
  from Obj.prems(2) obtain m where n: "n = Suc m" by (cases n) auto
  have keep: "filter (\<lambda>p. snd p \<noteq> Undefined) ps = ps"
    using Obj.prems(1) by (auto simp: filter_id_conv list_all_iff)
  show ?case
  proof (cases ps)
    case Nil
    then show ?thesis by (simp add: n not_ws_punct)
  next
    case (Cons p ps')
    define body where
      "body = join_comma (map (\<lambda>p. quote (fst p) @ CHR '':'' # JSON_text (snd p)) (p # ps'))
                @ CHR ''}'' # r"
    have members: "parse_members m body = Some (p # ps', r)"
      unfolding body_def
    proof (rule parse_members_JSON_text)
      show "list_all (\<lambda>p. json_value (snd p)) (p # ps')"
        using Obj.prems(1) Cons by simp
      show "length (p # ps') + sum_list (map (\<lambda>p. calls (snd p)) (p # ps')) \<le> m"
        using Obj.prems(2) Cons n by simp
      show "parse_value k (JSON_text x @ q) = Some (x, q)"
        if "x \<in> snd ` set (p # ps')" "calls x \<le> k" "delim q" for x k q
      proof -
        from that(1) have "\<exists>e. e \<in> set ps \<and> x = snd e"
          unfolding Cons by blast
        then obtain e where e: "e \<in> set ps" "x = snd e"
          by blast
        then have "x \<in> Basic_BNFs.snds e" and "json_value x"
          using Obj.prems(1) by (auto simp: list_all_iff snds.simps)
        with e that show ?thesis
          using Obj.IH [of e x k q] by simp
      qed
    qed
    have "\<exists>u. body = CHR 0x22 # u"
      by (simp add: body_def join_comma_Cons quote_def)
    then obtain u where u: "body = CHR 0x22 # u" by blast
    have fold: "foldl (\<lambda>qs m. set_prop qs (fst m) (snd m)) [] (p # ps') = p # ps'"
      using foldl_set_prop [of "p # ps'" "[]"] Obj.prems(1) Cons by simp
    have pv: "parse_value (Suc m) (CHR ''{'' # body) = Some (Obj (p # ps'), r)"
      using members fold unfolding u by (simp add: not_ws_quote del: foldl.simps)
    have shape: "JSON_text (Obj ps) @ r = CHR ''{'' # body"
      unfolding JSON_text.simps keep by (simp add: Cons body_def)
    have "parse_value (Suc m) (JSON_text (Obj ps) @ r) = Some (Obj (p # ps'), r)"
      unfolding shape by (rule pv)
    then show ?thesis
      unfolding n Cons .
  qed
qed

text \<open>The bound that \<open>JSON_parse_text\<close> starts with is large enough.\<close>

lemma length_join_comma:
  "length (join_comma xs) = sum_list (map length xs) + (length xs - 1)"
  by (induction xs rule: join_comma.induct) simp_all

lemma show_int_not_Nil: "show_int i \<noteq> []"
  by (simp add: show_int_def show_nat_not_Nil)

lemma sum_list_le:
  "(\<And>x. x \<in> set xs \<Longrightarrow> f x \<le> 2 * g x) \<Longrightarrow>
   sum_list (map f xs) \<le> 2 * sum_list (map g xs)" for f g :: "'a \<Rightarrow> nat"
  by (induction xs) (simp_all add: add_mono)

lemma calls_le_text: "json_value v \<Longrightarrow> calls v \<le> 2 * length (JSON_text v)"
proof (induction v)
  case (Num i)
  have "1 \<le> length (show_int i)"
    using show_int_not_Nil [of i] by (cases "show_int i") simp_all
  then show ?case by simp
next
  case (Str s)
  then show ?case by (simp add: quote_def)
next
  case (Arr vs)
  have "sum_list (map calls vs) \<le> 2 * sum_list (map (\<lambda>x. length (JSON_text x)) vs)"
    using Arr by (intro sum_list_le) (auto simp: list_all_iff)
  then show ?case
    by (cases vs) (simp_all add: length_join_comma o_def)
next
  case (Obj ps)
  have keep: "filter (\<lambda>p. snd p \<noteq> Undefined) ps = ps"
    using Obj.prems by (auto simp: filter_id_conv list_all_iff)
  have "sum_list (map (\<lambda>p. calls (snd p)) ps)
          \<le> 2 * sum_list (map (\<lambda>p. length (quote (fst p) @ CHR '':'' # JSON_text (snd p))) ps)"
  proof (rule sum_list_le)
    fix p assume p: "p \<in> set ps"
    then have "snd p \<in> Basic_BNFs.snds p" and "json_value (snd p)"
      using Obj.prems by (auto simp: list_all_iff snds.simps)
    with p have "calls (snd p) \<le> 2 * length (JSON_text (snd p))"
      using Obj.IH by blast
    then show "calls (snd p) \<le> 2 * length (quote (fst p) @ CHR '':'' # JSON_text (snd p))"
      by simp
  qed
  then show ?case
    unfolding JSON_text.simps keep
    by (cases ps) (simp_all add: length_join_comma o_def)
qed simp_all

lemma parse_stringify:
  assumes "json_value v"
  shows "JSON_parse (JSON_stringify v) = Inr v"
proof -
  obtain c w where cw: "JSON_text v = c # w" and c: "\<not> is_ws c"
    using JSON_text_start [OF assms] by blast
  have sk: "skip_ws (JSON_text v) = JSON_text v"
    using c by (simp add: cw)
  have "calls v \<le> 2 * length (JSON_text v) + 2"
    using calls_le_text [OF assms] by simp
  then have "parse_value (2 * length (JSON_text v) + 2) (JSON_text v @ []) = Some (v, [])"
    using assms by (intro parse_value_JSON_text) (simp_all add: delim_def)
  then have "JSON_parse_text (JSON_text v) = Inr v"
    unfolding JSON_parse_text_def sk by simp
  then show ?thesis
    using assms by (auto simp: JSON_parse_def JSON_stringify_def)
qed


subsection \<open>Tags through either backend\<close>




lemma get_prop_task_obj:
  "get_prop (task_obj t @ ps) ''tags'' = t_tags t"
  "get_prop (task_obj t @ ps) ''id'' = Num (int (t_id t))"
  "get_prop (task_obj t) ''tags'' = t_tags t"
  "get_prop (task_obj t) ''id'' = Num (int (t_id t))"
  by (simp_all add: task_obj_def get_prop_def)



text \<open>
  Claim C2. The same sequence of requests is to give the same response bodies under both
  backends. After the same \<^verbatim>\<open>POST\<close> with the tags \<^verbatim>\<open>["a"]\<close>, which both backends
  answer alike, a \<^verbatim>\<open>PUT\<close> whose body is \<^verbatim>\<open>{"tags": null}\<close> is answered with the tags
  \<^verbatim>\<open>null\<close> under SQLite, where the text \<^verbatim>\<open>null\<close> has replaced the stored tags, and with
  the tags \<^verbatim>\<open>["a"]\<close> under Postgres, where \<^verbatim>\<open>COALESCE\<close> has kept them.
\<close>

theorem put_null_tags_differs_by_backend:
  "fst (post_task example_key SQLite 20 [(''project_id'', Num 1), (''title'', Str ''Plan''),
                             (''tags'', Arr [Str ''a''])] example_db) =
   fst (post_task example_key PostgreSQL 20 [(''project_id'', Num 1), (''title'', Str ''Plan''),
                                 (''tags'', Arr [Str ''a''])] example_db)
 \<and> fst (put_task example_key SQLite 30 ''2'' [(''tags'', Null)]
        (snd (post_task example_key SQLite 20 [(''project_id'', Num 1), (''title'', Str ''Plan''),
                                   (''tags'', Arr [Str ''a''])] example_db))) =
     Respond 200
       (Obj [(''success'', Bool True),
             (''data'',
              Obj [(''id'', Num 2), (''project_id'', Num 1),
                   (''title'', Str ''Plan''), (''description'', Null),
                   (''status'', Str ''todo''), (''priority'', Str ''medium''),
                   (''due_date'', Null), (''estimated_hours'', Null),
                   (''actual_hours'', Null), (''tags'', Null),
                   (''created_at'', Num 20), (''updated_at'', Num 30)])])
 \<and> fst (put_task example_key PostgreSQL 30 ''2'' [(''tags'', Null)]
        (snd (post_task example_key PostgreSQL 20 [(''project_id'', Num 1), (''title'', Str ''Plan''),
                                       (''tags'', Arr [Str ''a''])] example_db))) =
     Respond 200
       (Obj [(''success'', Bool True),
             (''data'',
              Obj [(''id'', Num 2), (''project_id'', Num 1),
                   (''title'', Str ''Plan''), (''description'', Null),
                   (''status'', Str ''todo''), (''priority'', Str ''medium''),
                   (''due_date'', Null), (''estimated_hours'', Null),
                   (''actual_hours'', Null), (''tags'', Arr [Str ''a'']),
                   (''created_at'', Num 20), (''updated_at'', Num 30)])])"
  by code_simp

text \<open>The two responses to the same \<^verbatim>\<open>PUT\<close> are different bodies: the request passes
  the guards of both handlers, and the two backends part at the tags.\<close>

theorem put_null_tags_differs_by_backend_witness:
  "fst (put_task example_key SQLite 30 ''2'' [(''tags'', Null)]
        (snd (post_task example_key SQLite 20 [(''project_id'', Num 1), (''title'', Str ''Plan''),
                                   (''tags'', Arr [Str ''a''])] example_db))) \<noteq>
   fst (put_task example_key PostgreSQL 30 ''2'' [(''tags'', Null)]
        (snd (post_task example_key PostgreSQL 20 [(''project_id'', Num 1), (''title'', Str ''Plan''),
                                       (''tags'', Arr [Str ''a''])] example_db)))"
  using put_null_tags_differs_by_backend by simp

subsection \<open>Filtering the list\<close>

lemma filter_distinct_key:
  "distinct (map f xs) \<Longrightarrow> filter (\<lambda>x. k = f x) xs = [] \<or> (\<exists>x. filter (\<lambda>x. k = f x) xs = [x])"
proof (induction xs)
  case Nil
  then show ?case by simp
next
  case (Cons a xs)
  then show ?case
    by (auto simp: filter_empty_conv)
qed

lemma left_join_single:
  assumes "distinct (map p_id ps)"
  shows "left_join ps t = [(t, project_name ps t)]"
  using filter_distinct_key [OF assms, of "t_project_id t"]
  by (auto simp: left_join_def project_name_def)

lemma insort_key_map:
  "insort_key f (g x) (map g xs) = map g (insort_key (\<lambda>y. f (g y)) x xs)"
  by (induction xs) auto

lemma sort_key_map: "sort_key f (map g xs) = map g (sort_key (\<lambda>y. f (g y)) xs)"
  by (induction xs) (auto simp: insort_key_map)

lemma get_prop_tags:
  "get_prop (task_obj t @ ps) ''tags'' = t_tags t" "get_prop (task_obj t) ''tags'' = t_tags t"
  by (simp_all add: task_obj_def get_prop_def)

lemma read_tags_joined: "read_tags ty (joined_obj (t, n)) = read_tags ty (Obj (task_obj t))"
  by (simp add: read_tags_def joined_obj_def get_prop_tags)

lemma map_tags_readable:
  assumes "list_all (tags_readable ty) ts"
  shows "map_tags ty (map (\<lambda>t. joined_obj (t, project_name ps t)) ts) =
           Inr (map (task_json ty ps) ts)"
  using assms
proof (induction ts)
  case Nil
  then show ?case by simp
next
  case (Cons t ts)
  from Cons.prems obtain v where v: "read_tags ty (Obj (task_obj t)) = Inr v"
    by (auto simp: tags_readable_def split: sum.splits)
  then have r: "read_tags ty (joined_obj (t, project_name ps t)) = Inr v"
    by (simp add: read_tags_joined)
  have j: "with_field (joined_obj (t, project_name ps t)) ''tags'' v = task_json ty ps t"
    by (simp add: task_json_def joined_obj_def v)
  from Cons show ?case by (simp add: r j)
qed

lemma sorted_desc:
  "sorted_wrt (\<lambda>a b. t_created_at b \<le> t_created_at a)
     (sort_key (\<lambda>t. - int (t_created_at t)) ts)"
proof -
  have "sorted (map (\<lambda>t. - int (t_created_at t)) (sort_key (\<lambda>t. - int (t_created_at t)) ts))"
    by (rule sorted_sort_key)
  then show ?thesis
    by (simp add: sorted_map sorted_wrt_iff_nth_less)
qed

text \<open>
  Claim C5. A \<^verbatim>\<open>GET /api/tasks\<close> with the query \<^verbatim>\<open>status=done&priority=high\<close> answers
  200 with exactly the stored tasks whose status is \<^verbatim>\<open>done\<close> and whose priority is
  \<^verbatim>\<open>high\<close>, each once, ordered by \<open>created_at\<close> descending, and with \<open>count\<close> their
  number. The keys of \<open>projects\<close> are distinct, as those of a primary key, and the
  stored tags of these tasks can be read back.
\<close>

theorem get_tasks_done_high:
  assumes "get_prop query ''status'' = Str ''done''"
    and "get_prop query ''priority'' = Str ''high''"
    and "map_of query ''project_id'' = None"
    and "distinct (map p_id (project_rows db))"
    and "list_all (tags_readable ty) (matching_tasks db)"
  shows "\<exists>ts. mset ts = mset (matching_tasks db)
            \<and> sorted_wrt (\<lambda>a b. t_created_at b \<le> t_created_at a) ts
            \<and> get_tasks K ty query db =
                (Respond 200 (Obj [(''success'', Bool True),
                                   (''data'', Arr (map (task_json ty (project_rows db)) ts)),
                                   (''count'', Num (int (length ts)))]), db)"
proof -
  let ?ts = "sort_key (\<lambda>t. - int (t_created_at t)) (matching_tasks db)"
  have found: "filter (\<lambda>t. sql_eq (t_status t) (Str ''done'') \<and> sql_eq (t_priority t) (Str ''high''))
                 (task_rows db) = matching_tasks db"
    unfolding matching_tasks_def by (rule filter_cong) (auto simp: sql_eq_def)
  have joined: "concat (map (left_join (project_rows db)) (matching_tasks db)) =
                  map (\<lambda>t. (t, project_name (project_rows db) t)) (matching_tasks db)"
    by (induction "matching_tasks db") (simp_all add: left_join_single [OF assms(4)])
  have rd: "list_all (tags_readable ty) ?ts"
    using assms(5) by (simp add: list_all_iff)
  have rows: "db_select_tasks (K ty) [By_status (Str ''done''), By_priority (Str ''high'')] db =
                Inr \<lparr>rows = map (\<lambda>t. joined_obj (t, project_name (project_rows db) t)) ?ts,
                     rowCount = length ?ts, lastID = Undefined\<rparr>"
    by (simp add: db_select_tasks_def List.map_filter_simps Let_def found joined sort_key_map
          o_def)
  have "get_tasks K ty query db =
          (Respond 200 (Obj [(''success'', Bool True),
                             (''data'', Arr (map (task_json ty (project_rows db)) ?ts)),
                             (''count'', Num (int (length ?ts)))]), db)"
    using assms(1,2,3)
    by (simp add: get_tasks_def Let_def get_prop_missing rows map_tags_readable [OF rd])
  moreover have "mset ?ts = mset (matching_tasks db)" by simp
  moreover note sorted_desc [of "matching_tasks db"]
  ultimately show ?thesis by blast
qed

theorem get_tasks_done_high_witness:
  "get_prop [(''status'', Str ''done''), (''priority'', Str ''high'')] ''status'' = Str ''done''
 \<and> get_prop [(''status'', Str ''done''), (''priority'', Str ''high'')] ''priority'' = Str ''high''
 \<and> map_of [(''status'', Str ''done''), (''priority'', Str ''high'')] ''project_id'' = None
 \<and> distinct (map p_id (project_rows board_db))
 \<and> list_all (tags_readable SQLite) (matching_tasks board_db)
 \<and> map t_id (matching_tasks board_db) = [1, 3]
 \<and> (\<exists>ts. mset ts = mset (matching_tasks board_db)
        \<and> sorted_wrt (\<lambda>a b. t_created_at b \<le> t_created_at a) ts
        \<and> get_tasks example_key SQLite [(''status'', Str ''done''), (''priority'', Str ''high'')] board_db =
            (Respond 200 (Obj [(''success'', Bool True),
                               (''data'', Arr (map (task_json SQLite (project_rows board_db)) ts)),
                               (''count'', Num (int (length ts)))]), board_db))"
proof -
  let ?query = "[(''status'', Str ''done''), (''priority'', Str ''high'')]"
  have h1: "get_prop ?query ''status'' = Str ''done''"
    and h2: "get_prop ?query ''priority'' = Str ''high''"
    and h3: "map_of ?query ''project_id'' = None"
    by (simp_all add: get_prop_def)
  have h4: "distinct (map p_id (project_rows board_db))"
    by (simp add: board_db_def)
  have h5: "list_all (tags_readable SQLite) (matching_tasks board_db)"
    by code_simp
  have m: "map t_id (matching_tasks board_db) = [1, 3]"
    by (simp add: matching_tasks_def board_db_def)
  from get_tasks_done_high [where K = example_key, OF h1 h2 h3 h4 h5] h1 h2 h3 h4 h5 m
  show ?thesis by blast
qed

subsection \<open>What the handlers preserve\<close>

text \<open>The three conditions on the database that the theorems above rely on hold of
  every database the handlers produce from one that has them: the keys of the tasks are
  those the sequence has handed out, the projects are untouched, and the stored tags can
  be read back whenever the tags of the request bodies are JSON values.\<close>

lemma snd_get_tasks: "snd (get_tasks K ty query db) = db"
proof -
  have "snd (case r of
               Inl e \<Rightarrow> (Next e, db)
             | Inr result \<Rightarrow>
                 (case map_tags ty (rows result) of
                    Inl e \<Rightarrow> (Next e, db)
                  | Inr tasks \<Rightarrow>
                      (Respond 200 (Obj [(''success'', Bool True), (''data'', Arr tasks),
                                         (''count'', Num (int (length tasks)))]), db))) = db"
    for r
    by (simp split: sum.splits)
  then show ?thesis
    unfolding get_tasks_def Let_def .
qed

lemma t_id_update_row [simp]: "t_id (update_row now p1 p2 p3 p4 p5 p6 p7 p8 t) = t_id t"
  by (simp add: update_row_def)

lemma handlers_keep_keys:
  assumes "list_all (\<lambda>t. t_id t \<le> seq db) (task_rows db)"
  shows "list_all (\<lambda>t. t_id t \<le> seq (snd (get_tasks K ty query db))) (task_rows (snd (get_tasks K ty query db)))"
    and "list_all (\<lambda>t. t_id t \<le> seq (snd (get_task K ty i db))) (task_rows (snd (get_task K ty i db)))"
    and "list_all (\<lambda>t. t_id t \<le> seq (snd (post_task K ty now body db))) (task_rows (snd (post_task K ty now body db)))"
    and "list_all (\<lambda>t. t_id t \<le> seq (snd (put_task K ty now i body db))) (task_rows (snd (put_task K ty now i body db)))"
    and "list_all (\<lambda>t. t_id t \<le> seq (snd (delete_task K ty i db))) (task_rows (snd (delete_task K ty i db)))"
proof -
  show "list_all (\<lambda>t. t_id t \<le> seq (snd (get_tasks K ty query db))) (task_rows (snd (get_tasks K ty query db)))"
    using assms by (simp add: snd_get_tasks)
  show "list_all (\<lambda>t. t_id t \<le> seq (snd (get_task K ty i db))) (task_rows (snd (get_task K ty i db)))"
    using assms by (simp add: get_task_def Let_def split: sum.splits)
  show "list_all (\<lambda>t. t_id t \<le> seq (snd (post_task K ty now body db))) (task_rows (snd (post_task K ty now body db)))"
    using assms
    by (auto simp: post_task_unfold Let_def list_all_iff split: sum.splits option.splits)
  show "list_all (\<lambda>t. t_id t \<le> seq (snd (put_task K ty now i body db))) (task_rows (snd (put_task K ty now i body db)))"
    using assms by (auto simp: put_task_unfold Let_def list_all_iff split: sum.splits)
  show "list_all (\<lambda>t. t_id t \<le> seq (snd (delete_task K ty i db))) (task_rows (snd (delete_task K ty i db)))"
    using assms
    by (auto simp: delete_task_def db_delete_task_def Let_def list_all_iff split: sum.splits)
qed

lemma handlers_keep_projects:
  "project_rows (snd (get_tasks K ty query db)) = project_rows db"
  "project_rows (snd (get_task K ty i db)) = project_rows db"
  "project_rows (snd (post_task K ty now body db)) = project_rows db"
  "project_rows (snd (put_task K ty now i body db)) = project_rows db"
  "project_rows (snd (delete_task K ty i db)) = project_rows db"
proof -
  show "project_rows (snd (get_tasks K ty query db)) = project_rows db"
    by (simp add: snd_get_tasks)
  show "project_rows (snd (get_task K ty i db)) = project_rows db"
    by (simp add: get_task_def Let_def split: sum.splits)
  show "project_rows (snd (post_task K ty now body db)) = project_rows db"
    by (simp add: post_task_unfold Let_def split: sum.splits option.splits)
  show "project_rows (snd (put_task K ty now i body db)) = project_rows db"
    by (simp add: put_task_unfold Let_def split: sum.splits)
  show "project_rows (snd (delete_task K ty i db)) = project_rows db"
    by (cases "K ty (Str i)") (simp_all add: delete_task_def db_delete_task_def Let_def)
qed

lemma tags_readable_iff:
  "tags_readable ty t \<longleftrightarrow>
     (ty = SQLite \<and> truthy (t_tags t) \<longrightarrow> (\<exists>v. JSON_parse (t_tags t) = Inr v))"
  by (auto simp: tags_readable_def read_tags_def get_prop_task_obj split: sum.splits)

lemma t_tags_update_row:
  "t_tags (update_row now p1 p2 p3 p4 p5 p6 p7 p8 t) = coalesce (bind p8) (t_tags t)"
  by (simp add: update_row_def)

lemma handlers_keep_tags_readable:
  assumes "list_all (tags_readable ty) (task_rows db)"
    and "get_prop body ''tags'' = Undefined \<or> json_value (get_prop body ''tags'')"
  shows "list_all (tags_readable ty) (task_rows (snd (post_task K ty now body db)))"
    and "list_all (tags_readable ty) (task_rows (snd (put_task K ty now i body db)))"
proof -
  define tags where "tags = get_prop body ''tags''"
  have js: "\<exists>v. JSON_parse (JSON_stringify tags) = Inr v" if "tags \<noteq> Undefined"
    using that assms(2) parse_stringify unfolding tags_def by blast
  have new: "tags_readable ty t"
    if "t_tags t = (if ty = SQLite then (if truthy tags then JSON_stringify tags else Null)
                    else bind tags)" for t
  proof (cases "ty = SQLite \<and> truthy tags")
    case True
    then have "tags \<noteq> Undefined" by auto
    from js [OF this] that True show ?thesis
      by (simp add: tags_readable_iff)
  next
    case False
    with that show ?thesis
      by (auto simp: tags_readable_iff)
  qed
  have upd: "tags_readable ty t'"
    if "tags_readable ty t"
      and "t_tags t' = coalesce (bind (if tags \<noteq> Undefined
                                        then (if ty = SQLite then JSON_stringify tags else tags)
                                        else Null)) (t_tags t)" for t t'
  proof (cases "ty = SQLite \<and> tags \<noteq> Undefined")
    case True
    then have "JSON_stringify tags = Str (JSON_text tags)"
      by (simp add: JSON_stringify_def)
    with True that(2) have "t_tags t' = JSON_stringify tags"
      by (simp add: coalesce_def bind_def)
    with js True show ?thesis
      by (simp add: tags_readable_iff)
  next
    case False
    with that show ?thesis
      by (auto simp: tags_readable_iff coalesce_def bind_def)
  qed
  have "task_rows (snd (post_task K ty now body db)) = task_rows db
      \<or> (\<exists>row. task_rows (snd (post_task K ty now body db)) = task_rows db @ [row]
             \<and> t_tags row = (if ty = SQLite
                               then (if truthy tags then JSON_stringify tags else Null)
                               else bind tags))"
    unfolding tags_def
    by (simp add: post_task_unfold Let_def split: sum.splits option.splits)
  with assms(1) new
  show "list_all (tags_readable ty) (task_rows (snd (post_task K ty now body db)))"
    by auto
  show "list_all (tags_readable ty) (task_rows (snd (put_task K ty now i body db)))"
  proof (cases "K ty (Str i)")
    case (Inl e)
    with assms(1) show ?thesis
      by (simp add: put_task_unfold)
  next
    case (Inr r)
    show ?thesis
    proof (cases "filter (\<lambda>t. r = Some (t_id t)) (task_rows db) = []")
      case True
      with assms(1) Inr show ?thesis
        by (simp add: put_task_unfold)
    next
      case False
      define U where "U = update_row now (js_or (get_prop body ''title'') Null)
                       (js_or (get_prop body ''description'') Null)
                       (js_or (get_prop body ''status'') Null)
                       (js_or (get_prop body ''priority'') Null)
                       (js_or (get_prop body ''due_date'') Null)
                       (js_or (get_prop body ''estimated_hours'') Null)
                       (js_or (get_prop body ''actual_hours'') Null)
                       (if tags \<noteq> Undefined
                        then (if ty = SQLite then JSON_stringify tags else tags)
                        else Null)"
      have rows: "task_rows (snd (put_task K ty now i body db)) =
                    map (\<lambda>t. if r = Some (t_id t) then U t else t) (task_rows db)"
        using False Inr by (simp add: put_task_unfold Let_def U_def tags_def)
      have "tags_readable ty (U t)" if "tags_readable ty t" for t
        using that by (rule upd) (simp add: U_def t_tags_update_row)
      with assms(1) show ?thesis
        by (auto simp: rows list_all_iff)
    qed
  qed
qed

end
